theory Spec2Isabelle
  imports Complex_Main
begin

section \<open>Python values reaching the overlay\<close>

text \<open>
  The overlay (\<^verbatim>\<open>overlay_fixed_complete_final.py\<close>) is Python. Its integers are unbounded
  (\<open>int\<close>). Its floats are idealised as exact real numbers, with the three non-finite floats
  kept apart because \<^verbatim>\<open>int()\<close> raises on them. Strings are byte lists.
\<close>

datatype error = TypeError | ValueError | OverflowError | ZeroDivisionError

datatype pyfloat = Finite real | NaN | PosInf | NegInf

datatype pyval =
    PyNone
  | PyBool bool
  | PyInt int
  | PyFloat pyfloat
  | PyStr string
  | PyObject

text \<open>\<^verbatim>\<open>int(x)\<close> on a finite float truncates towards zero.\<close>

definition py_trunc :: "real \<Rightarrow> int" where
  "py_trunc x = (if 0 \<le> x then \<lfloor>x\<rfloor> else \<lceil>x\<rceil>)"

text \<open>
  \<^verbatim>\<open>int(s)\<close> on a string: surrounding whitespace is stripped, one sign is allowed, then
  decimal digits, where single underscores may separate digits (ASCII only here).
\<close>

definition is_space :: "char \<Rightarrow> bool" where
  "is_space c = (c \<in> set [CHR '' '', CHR 0x09, CHR 0x0A, CHR 0x0B, CHR 0x0C, CHR 0x0D])"

definition digit_val :: "char \<Rightarrow> nat option" where
  "digit_val c =
     (let n = (of_char c :: nat) in if 48 \<le> n \<and> n \<le> 57 then Some (n - 48) else None)"

fun parse_digits :: "nat \<Rightarrow> string \<Rightarrow> nat option" where
  "parse_digits acc [] = Some acc"
| "parse_digits acc [c] =
     (case digit_val c of None \<Rightarrow> None | Some v \<Rightarrow> Some (10 * acc + v))"
| "parse_digits acc (c # d # ds) =
     (if c = CHR ''_'' then
        (case digit_val d of None \<Rightarrow> None | Some v \<Rightarrow> parse_digits (10 * acc + v) ds)
      else
        (case digit_val c of None \<Rightarrow> None
         | Some v \<Rightarrow> parse_digits (10 * acc + v) (d # ds)))"

definition parse_unsigned :: "string \<Rightarrow> nat option" where
  "parse_unsigned s =
     (case s of [] \<Rightarrow> None
      | c # cs \<Rightarrow> (case digit_val c of None \<Rightarrow> None | Some v \<Rightarrow> parse_digits v cs))"

definition strip :: "string \<Rightarrow> string" where
  "strip s = rev (dropWhile is_space (rev (dropWhile is_space s)))"

definition int_of_str :: "string \<Rightarrow> int option" where
  "int_of_str s =
     (case strip s of
        [] \<Rightarrow> None
      | c # cs \<Rightarrow>
          if c = CHR ''-'' then map_option (\<lambda>n. - int n) (parse_unsigned cs)
          else if c = CHR ''+'' then map_option int (parse_unsigned cs)
          else map_option int (parse_unsigned (c # cs)))"

fun py_int :: "pyval \<Rightarrow> error + int" where
  "py_int PyNone = Inl TypeError"
| "py_int (PyBool b) = Inr (if b then 1 else 0)"
| "py_int (PyInt n) = Inr n"
| "py_int (PyFloat (Finite x)) = Inr (py_trunc x)"
| "py_int (PyFloat NaN) = Inl ValueError"
| "py_int (PyFloat PosInf) = Inl OverflowError"
| "py_int (PyFloat NegInf) = Inl OverflowError"
| "py_int (PyStr s) = (case int_of_str s of None \<Rightarrow> Inl ValueError | Some n \<Rightarrow> Inr n)"
| "py_int PyObject = Inl TypeError"

text \<open>\<^verbatim>\<open>a / b\<close> on floats raises when the divisor is zero.\<close>

definition py_truediv :: "real \<Rightarrow> real \<Rightarrow> error + real" where
  "py_truediv a b = (if b = 0 then Inl ZeroDivisionError else Inr (a / b))"

text \<open>\<^verbatim>\<open>x * 100\<close> on a float: the non-finite floats stay what they are.\<close>

fun float_times :: "pyfloat \<Rightarrow> real \<Rightarrow> pyfloat" where
  "float_times (Finite x) k = Finite (x * k)"
| "float_times NaN k = NaN"
| "float_times PosInf k = (if 0 < k then PosInf else if k < 0 then NegInf else NaN)"
| "float_times NegInf k = (if 0 < k then NegInf else if k < 0 then PosInf else NaN)"

text \<open>\<^verbatim>\<open>str(n)\<close> for an integer, as the f-strings of the overlay format it.\<close>

definition digit_char :: "nat \<Rightarrow> char" where
  "digit_char d = ''0123456789'' ! d"

fun str_nat :: "nat \<Rightarrow> string" where
  "str_nat n = (if n < 10 then [digit_char n] else str_nat (n div 10) @ [digit_char (n mod 10)])"

declare str_nat.simps [simp del]

definition str_int :: "int \<Rightarrow> string" where
  "str_int i = (if i < 0 then CHR ''-'' # str_nat (nat (- i)) else str_nat (nat i))"


section \<open>StatRow: label, progress bar, percent text\<close>

text \<open>
  \<^verbatim>\<open>StatRow\<close> holds a label, a \<^verbatim>\<open>QProgressBar\<close> with range 0..100 and a value label that
  starts as \<^verbatim>\<open>"0%"\<close>. The bar's value is never set by the constructor, so it is Qt's
  unset value \<open>-1\<close> until the first \<^verbatim>\<open>update_value\<close>. Styling is left out.
\<close>

record stat_row =
  label :: string
  bar :: int
  value_label :: string

definition StatRow :: "string \<Rightarrow> stat_row" where
  "StatRow label_text = \<lparr>label = label_text, bar = - 1, value_label = ''0%''\<rparr>"

definition update_value :: "stat_row \<Rightarrow> pyval \<Rightarrow> stat_row" where
  "update_value row percent =
     (let percent = (if percent = PyNone then PyInt 0 else percent);
          p = (case py_int percent of Inr n \<Rightarrow> max 0 (min 100 n) | Inl e \<Rightarrow> 0)
      in row\<lparr>bar := p, value_label := str_int p @ ''%''\<rparr>)"


section \<open>What the operating system and the GPU libraries answer\<close>

text \<open>
  Every query of \<^verbatim>\<open>psutil\<close>, \<^verbatim>\<open>pynvml\<close> and \<^verbatim>\<open>GPUtil\<close> is an input of the model. A query
  that raises is \<open>None\<close>. The two module-level flags \<^verbatim>\<open>NVML\<close> and \<^verbatim>\<open>GPUtil_available\<close>
  are resolved once at import. \<open>sensors_battery\<close> is \<open>Some None\<close> when \<^verbatim>\<open>psutil\<close> reports that
  there is no battery; \<open>power_plugged\<close> is \<open>None\<close> when \<^verbatim>\<open>psutil\<close> cannot tell.
\<close>

record backends =
  NVML :: bool
  GPUtil_available :: bool

record gputil_gpu =
  gpu_name :: string
  load :: pyfloat

text \<open>
  One round of answers of the two GPU libraries. For device \<open>i\<close>,
  \<open>nvmlDeviceGetName q i\<close> stands for \<^verbatim>\<open>nvmlDeviceGetHandleByIndex(i)\<close> followed by
  \<^verbatim>\<open>nvmlDeviceGetName\<close> (decoded), and \<open>nvmlDeviceGetUtilizationRates q i\<close> for the handle
  lookup followed by \<^verbatim>\<open>nvmlDeviceGetUtilizationRates(handle).gpu\<close>: \<open>None\<close> when either call
  raises. \<open>getGPUs\<close> is the list \<^verbatim>\<open>GPUtil.getGPUs()\<close> returns. The libraries are asked at start-up and
  again on every tick, and nothing makes them answer the same each time.
\<close>

record gpu_query =
  nvmlDeviceGetCount :: "nat option"
  nvmlDeviceGetName :: "nat \<Rightarrow> string option"
  nvmlDeviceGetUtilizationRates :: "nat \<Rightarrow> int option"
  getGPUs :: "gputil_gpu list option"

record battery =
  percent :: real
  power_plugged :: "bool option"

record nic_stats =
  bytes_sent :: int
  bytes_recv :: int

text \<open>\<^verbatim>\<open>psutil.net_io_counters(pernic=True)\<close> is a dict; its items come in insertion order.\<close>

type_synonym pernic = "(string \<times> nic_stats) list"

record sensors =
  sensors_battery :: "battery option option"
  cpu_percent :: "real option"
  virtual_memory_percent :: "real option"
  disk_usage_percent :: "real option"
  gpu_backend :: gpu_query
  net_io_counters :: "pernic option"
  time_now :: real


section \<open>OverlayWindow\<close>

text \<open>The dict \<^verbatim>\<open>previous_net\<close> with its keys name, sent, recv and time.\<close>

record net_state =
  name :: string
  sent :: int
  recv :: int
  time :: real

type_synonym gpu_row_list = "(string \<times> stat_row) list"

text \<open>
  The fields of the window that the sampling and the tab handlers read or write. For the
  two tabs and the settings button the field is the checked state, for the home button
  and the areas it is the visibility; \<open>settings_area\<close> is \<open>None\<close> until the attribute is
  created. Fonts, colours, sizes and dragging are left out.
\<close>

record overlay =
  batt_label :: string
  row_cpu :: stat_row
  row_ram :: stat_row
  row_disk :: stat_row
  row_net :: stat_row
  gpu_rows :: gpu_row_list
  previous_net :: "net_state option"
  tab_info :: bool
  tab_about :: bool
  btn_settings :: bool
  home_btn :: bool
  live_area :: bool
  info_area :: bool
  about_area :: bool
  settings_area :: "bool option"

definition build_ui :: overlay where
  "build_ui =
     \<lparr>batt_label = [],
      row_cpu = StatRow ''CPU'', row_ram = StatRow ''RAM'', row_disk = StatRow ''DISK'',
      row_net = StatRow ''NETWORK'',
      gpu_rows = [],
      previous_net = None,
      tab_info = False, tab_about = False, btn_settings = False,
      home_btn = False, live_area = True, info_area = False, about_area = False,
      settings_area = None\<rparr>"


subsection \<open>detect_gpus_and_populate\<close>

fun nvml_names :: "(nat \<Rightarrow> string option) \<Rightarrow> nat list \<Rightarrow> string list option" where
  "nvml_names get [] = Some []"
| "nvml_names get (i # rest) =
     (case get i of None \<Rightarrow> None
      | Some nm \<Rightarrow> map_option ((#) nm) (nvml_names get rest))"

text \<open>The first block: \<open>(gpu_names, gpu_count)\<close> after the native backend was asked.\<close>

definition native_enumerate :: "backends \<Rightarrow> gpu_query \<Rightarrow> string list \<times> nat" where
  "native_enumerate caps q =
     (if NVML caps then
        (case nvmlDeviceGetCount q of
           None \<Rightarrow> ([], 0)
         | Some gpu_count \<Rightarrow>
             (case nvml_names (nvmlDeviceGetName q) [0..<gpu_count] of
                None \<Rightarrow> ([], 0)
              | Some gpu_names \<Rightarrow> (gpu_names, gpu_count)))
      else ([], 0))"

text \<open>The guard of the second block: whether \<^verbatim>\<open>GPUtil.getGPUs()\<close> is called at all.\<close>

definition fallback_consulted :: "backends \<Rightarrow> gpu_query \<Rightarrow> bool" where
  "fallback_consulted caps q = (fst (native_enumerate caps q) = [] \<and> GPUtil_available caps)"

definition enumerate_gpus :: "backends \<Rightarrow> gpu_query \<Rightarrow> string list \<times> nat" where
  "enumerate_gpus caps q =
     (let (gpu_names, gpu_count) = native_enumerate caps q in
      if fallback_consulted caps q then
        (case getGPUs q of
           None \<Rightarrow> ([], 0)
         | Some gpus \<Rightarrow> (gpu_names @ map gpu_name gpus, length gpus))
      else (gpu_names, gpu_count))"

definition populate_rows :: "string list \<Rightarrow> nat \<Rightarrow> gpu_row_list" where
  "populate_rows gpu_names gpu_count =
     (if gpu_count = 0 then [(''GPU'', StatRow ''GPU'')]
      else map (\<lambda>(idx, nm). (nm, StatRow (''GPU'' @ str_int (int idx) @ '' ('' @ nm @ '')'')))
             (enumerate 0 gpu_names))"

definition detect_gpus_and_populate :: "backends \<Rightarrow> gpu_query \<Rightarrow> overlay \<Rightarrow> overlay" where
  "detect_gpus_and_populate caps q w =
     (let (gpu_names, gpu_count) = enumerate_gpus caps q
      in w\<lparr>gpu_rows := populate_rows gpu_names gpu_count\<rparr>)"

text \<open>The constructor, up to the point where the timers start.\<close>

definition OverlayWindow :: "backends \<Rightarrow> gpu_query \<Rightarrow> overlay" where
  "OverlayWindow caps q = detect_gpus_and_populate caps q build_ui"


subsection \<open>update_battery\<close>

text \<open>The two symbols are U+1F50C and U+1F50B, here as their UTF-8 bytes.\<close>

definition plug_emoji :: string where
  "plug_emoji = [CHR 0xF0, CHR 0x9F, CHR 0x94, CHR 0x8C]"

definition battery_emoji :: string where
  "battery_emoji = [CHR 0xF0, CHR 0x9F, CHR 0x94, CHR 0x8B]"

definition update_battery :: "battery option option \<Rightarrow> overlay \<Rightarrow> overlay" where
  "update_battery q w =
     (case q of
        None \<Rightarrow> w\<lparr>batt_label := ''Battery: --''\<rparr>
      | Some None \<Rightarrow> w\<lparr>batt_label := ''No battery''\<rparr>
      | Some (Some batt) \<Rightarrow>
          (let pct = py_trunc (percent batt);
               plugged = power_plugged batt;
               (plug_symbol, status) =
                 (if plugged = Some True then (plug_emoji, ''Charging'')
                  else (battery_emoji, ''On Battery''))
           in w\<lparr>batt_label := plug_symbol @ '' '' @ str_int pct @ ''% ('' @ status @ '')''\<rparr>))"


subsection \<open>update_stats: the GPU rows\<close>

text \<open>\<^verbatim>\<open>self.gpu_rows[idx][1].update_value(v)\<close>, only ever called with \<open>idx\<close> in range.\<close>

definition set_row :: "nat \<Rightarrow> pyval \<Rightarrow> gpu_row_list \<Rightarrow> gpu_row_list" where
  "set_row idx v rows = rows[idx := (fst (rows ! idx), update_value (snd (rows ! idx)) v)]"

definition zero_rows :: "gpu_row_list \<Rightarrow> gpu_row_list" where
  "zero_rows rows = map (\<lambda>(nm, row). (nm, update_value row (PyInt 0))) rows"

text \<open>
  The loops return the rows as far as they were updated and whether the loop ran to its
  end (\<open>False\<close>: an exception left it).
\<close>

fun gputil_loop :: "gputil_gpu list \<Rightarrow> nat \<Rightarrow> gpu_row_list \<Rightarrow> gpu_row_list \<times> bool" where
  "gputil_loop gpus idx [] = ([], True)"
| "gputil_loop gpus idx ((nm, row) # rest) =
     (if idx < length gpus then
        (case py_int (PyFloat (float_times (load (gpus ! idx)) 100)) of
           Inl e \<Rightarrow> ((nm, row) # rest, False)
         | Inr l \<Rightarrow>
             (let (rest', ok) = gputil_loop gpus (Suc idx) rest
              in ((nm, update_value row (PyInt l)) # rest', ok)))
      else
        (let (rest', ok) = gputil_loop gpus (Suc idx) rest
         in ((nm, update_value row (PyInt 0)) # rest', ok)))"

definition update_gpus_gputil :: "backends \<Rightarrow> gpu_query \<Rightarrow> gpu_row_list \<Rightarrow> gpu_row_list" where
  "update_gpus_gputil caps q rows =
     (if GPUtil_available caps then
        (case getGPUs q of
           None \<Rightarrow> zero_rows rows
         | Some gpus \<Rightarrow>
             (case gputil_loop gpus 0 rows of
                (rows', True) \<Rightarrow> rows'
              | (rows', False) \<Rightarrow> zero_rows rows'))
      else zero_rows rows)"

fun nvml_loop :: "(nat \<Rightarrow> int option) \<Rightarrow> nat \<Rightarrow> nat list \<Rightarrow> gpu_row_list \<Rightarrow> gpu_row_list \<times> bool" where
  "nvml_loop util count [] rows = (rows, True)"
| "nvml_loop util count (idx # rest) rows =
     (if idx < count \<and> idx < length rows then
        (case util idx of
           None \<Rightarrow> (rows, False)
         | Some u \<Rightarrow> nvml_loop util count rest (set_row idx (PyInt u) rows))
      else if idx < length rows then nvml_loop util count rest (set_row idx (PyInt 0) rows)
      else nvml_loop util count rest rows)"

definition update_gpus :: "backends \<Rightarrow> gpu_query \<Rightarrow> gpu_row_list \<Rightarrow> gpu_row_list" where
  "update_gpus caps q rows =
     (if NVML caps then
        (case nvmlDeviceGetCount q of
           None \<Rightarrow> update_gpus_gputil caps q rows
         | Some count \<Rightarrow>
             (case nvml_loop (nvmlDeviceGetUtilizationRates q) count
                     [0..<max (length rows) count] rows of
                (rows', True) \<Rightarrow> rows'
              | (rows', False) \<Rightarrow> update_gpus_gputil caps q rows'))
      else update_gpus_gputil caps q rows)"


subsection \<open>update_stats: the network row\<close>

text \<open>The loop over \<^verbatim>\<open>pernic.items()\<close> with its two variables \<open>top_nic\<close> and \<open>top_total\<close>.\<close>

fun top_nic_loop :: "pernic \<Rightarrow> (string \<times> nic_stats) option \<Rightarrow> int \<Rightarrow> (string \<times> nic_stats) option" where
  "top_nic_loop [] top_nic top_total = top_nic"
| "top_nic_loop ((nic, s) # rest) top_nic top_total =
     (let total = bytes_sent s + bytes_recv s in
      if total > top_total then top_nic_loop rest (Some (nic, s)) total
      else top_nic_loop rest top_nic top_total)"

text \<open>The elapsed time as the two rate divisions use it.\<close>

definition elapsed :: "real \<Rightarrow> net_state \<Rightarrow> real" where
  "elapsed now prev = (let dt = now - time prev in if dt \<le> 0 then 1 else dt)"

definition net_pct :: "net_state \<Rightarrow> nic_stats \<Rightarrow> real \<Rightarrow> error + int" where
  "net_pct prev cur now =
     (let dt = elapsed now prev in
      case py_truediv (of_int (bytes_sent cur - sent prev)) dt of
        Inl e \<Rightarrow> Inl e
      | Inr sent_delta \<Rightarrow>
          (case py_truediv (of_int (bytes_recv cur - recv prev)) dt of
             Inl e \<Rightarrow> Inl e
           | Inr recv_delta \<Rightarrow>
               (let kbps = (sent_delta + recv_delta) / 1024
                in Inr (min 100 (py_trunc ((kbps / 102400) * 100))))))"

definition zero_net :: "overlay \<Rightarrow> overlay" where
  "zero_net w = w\<lparr>row_net := update_value (row_net w) (PyInt 0)\<rparr>"

text \<open>The body of the \<^verbatim>\<open>try\<close>, once the counters are read; \<open>Inl\<close> is a raised exception.\<close>

definition network_body :: "pernic \<Rightarrow> real \<Rightarrow> overlay \<Rightarrow> error + overlay" where
  "network_body items now w =
     (case top_nic_loop items None 0 of
        None \<Rightarrow> Inr (zero_net w)
      | Some (nic_name, cur) \<Rightarrow>
          (case (case previous_net w of
                   None \<Rightarrow> Inr (zero_net w)
                 | Some prev \<Rightarrow>
                     if name prev = nic_name then
                       (case net_pct prev cur now of
                          Inl e \<Rightarrow> Inl e
                        | Inr pct \<Rightarrow>
                            Inr (w\<lparr>row_net :=
                                     update_value
                                       ((row_net w)\<lparr>label := ''NETWORK ('' @ nic_name @ '')''\<rparr>)
                                       (PyInt pct)\<rparr>))
                     else Inr (zero_net w)) of
             Inl e \<Rightarrow> Inl e
           | Inr w' \<Rightarrow>
               Inr (w'\<lparr>previous_net :=
                          Some \<lparr>name = nic_name, sent = bytes_sent cur,
                                recv = bytes_recv cur, time = now\<rparr>\<rparr>)))"

definition update_network :: "pernic option \<Rightarrow> real \<Rightarrow> overlay \<Rightarrow> overlay" where
  "update_network counters now w =
     (case counters of
        None \<Rightarrow> zero_net w
      | Some items \<Rightarrow>
          (case network_body items now w of Inl e \<Rightarrow> zero_net w | Inr w' \<Rightarrow> w'))"


subsection \<open>update_stats\<close>

definition percent_or_zero :: "real option \<Rightarrow> pyval" where
  "percent_or_zero r = (case r of None \<Rightarrow> PyFloat (Finite 0) | Some x \<Rightarrow> PyFloat (Finite x))"

definition update_stats :: "backends \<Rightarrow> sensors \<Rightarrow> overlay \<Rightarrow> overlay" where
  "update_stats caps env w =
     (let w = update_battery (sensors_battery env) w;
          w = w\<lparr>row_cpu := update_value (row_cpu w) (percent_or_zero (cpu_percent env))\<rparr>;
          w = w\<lparr>row_ram := update_value (row_ram w) (percent_or_zero (virtual_memory_percent env))\<rparr>;
          w = w\<lparr>row_disk := update_value (row_disk w) (percent_or_zero (disk_usage_percent env))\<rparr>;
          w = w\<lparr>gpu_rows := update_gpus caps (gpu_backend env) (gpu_rows w)\<rparr>
      in update_network (net_io_counters env) (time_now env) w)"


text \<open>The update timer firing once for each element of \<open>envs\<close>, in order.\<close>

definition run_ticks :: "backends \<Rightarrow> sensors list \<Rightarrow> overlay \<Rightarrow> overlay" where
  "run_ticks caps envs w = foldl (\<lambda>w env. update_stats caps env w) w envs"

text \<open>
  A round of GPU queries on which the sampling finds no device: the native backend counts
  zero devices, or it is absent or its count fails and the fallback backend is absent,
  fails or lists nothing.
\<close>

definition reports_no_gpu :: "backends \<Rightarrow> gpu_query \<Rightarrow> bool" where
  "reports_no_gpu caps q =
     ((NVML caps \<and> nvmlDeviceGetCount q = Some 0) \<or>
      ((\<not> NVML caps \<or> nvmlDeviceGetCount q = None) \<and>
       (\<not> GPUtil_available caps \<or> getGPUs q = None \<or> getGPUs q = Some [])))"


subsection \<open>The tabs\<close>

definition hide_settings :: "overlay \<Rightarrow> overlay" where
  "hide_settings w = w\<lparr>settings_area := map_option (\<lambda>_. False) (settings_area w)\<rparr>"

definition toggle_tab :: "string \<Rightarrow> overlay \<Rightarrow> overlay" where
  "toggle_tab which w =
     (if which = ''info'' then
        (if tab_info w then
           hide_settings (w\<lparr>tab_about := False, home_btn := True, info_area := True,
                            about_area := False, live_area := False\<rparr>)
         else w\<lparr>info_area := False, live_area := True, home_btn := False\<rparr>)
      else if which = ''about'' then
        (if tab_about w then
           hide_settings (w\<lparr>tab_info := False, home_btn := True, about_area := True,
                            info_area := False, live_area := False\<rparr>)
         else w\<lparr>about_area := False, live_area := True, home_btn := False\<rparr>)
      else w)"

definition show_live_from_tab :: "overlay \<Rightarrow> overlay" where
  "show_live_from_tab w =
     hide_settings (w\<lparr>tab_info := False, tab_about := False, home_btn := False,
                      info_area := False, about_area := False, live_area := True\<rparr>)"

definition open_settings :: "overlay \<Rightarrow> overlay" where
  "open_settings w =
     w\<lparr>tab_info := False, tab_about := False, home_btn := True, live_area := False,
       info_area := False, about_area := False, settings_area := Some True\<rparr>"

text \<open>
  The three tab buttons are checkable (\<^verbatim>\<open>TinyToggleButton\<close>): a click first flips the
  button's checked state, then runs the connected handler. The home button is a plain
  button.
\<close>

datatype click = ClickInfo | ClickAbout | ClickSettings | ClickHome

fun clicked :: "overlay \<Rightarrow> click \<Rightarrow> overlay" where
  "clicked w ClickInfo = toggle_tab ''info'' (w\<lparr>tab_info := \<not> tab_info w\<rparr>)"
| "clicked w ClickAbout = toggle_tab ''about'' (w\<lparr>tab_about := \<not> tab_about w\<rparr>)"
| "clicked w ClickSettings = open_settings (w\<lparr>btn_settings := \<not> btn_settings w\<rparr>)"
| "clicked w ClickHome = show_live_from_tab w"

text \<open>Every state of a session: the freshly built window after any clicks.\<close>

definition session :: "click list \<Rightarrow> overlay" where
  "session cs = foldl clicked build_ui cs"

text \<open>
  The panes of the specification and the pane a window shows: the one area that is
  visible, provided exactly one is.
\<close>

datatype pane = Live | Info | About | Settings

definition visible_panes :: "overlay \<Rightarrow> pane list" where
  "visible_panes w =
     (if live_area w then [Live] else []) @
     (if info_area w then [Info] else []) @
     (if about_area w then [About] else []) @
     (if settings_area w = Some True then [Settings] else [])"

definition active_pane :: "overlay \<Rightarrow> pane option" where
  "active_pane w = (case visible_panes w of [p] \<Rightarrow> Some p | _ \<Rightarrow> None)"

text \<open>The user action by which each pane is requested.\<close>

fun requestPane :: "pane \<Rightarrow> overlay \<Rightarrow> overlay" where
  "requestPane Info w = clicked w ClickInfo"
| "requestPane About w = clicked w ClickAbout"
| "requestPane Settings w = clicked w ClickSettings"
| "requestPane Live w = clicked w ClickHome"

text \<open>The display percent of the network row as the specification words it.\<close>

definition spec_net_percent :: "int \<Rightarrow> int \<Rightarrow> real \<Rightarrow> int" where
  "spec_net_percent S R T =
     min 100 (round (((of_int (S + R) / T) / 1024) / 102400 * 100))"


text \<open>
  What the handlers keep true of every state of a session: one pane shows, each tab is
  checked exactly while its pane shows, and the home button shows exactly while the live
  pane does not.
\<close>

definition consistent :: "overlay \<Rightarrow> bool" where
  "consistent w =
     (active_pane w \<noteq> None \<and> tab_info w = info_area w \<and> tab_about w = about_area w
      \<and> home_btn w = (\<not> live_area w))"


section \<open>Sample inputs\<close>

definition both_backends :: backends where
  "both_backends = \<lparr>NVML = True, GPUtil_available = True\<rparr>"

definition native_only :: backends where
  "native_only = \<lparr>NVML = True, GPUtil_available = False\<rparr>"

definition no_backend :: backends where
  "no_backend = \<lparr>NVML = False, GPUtil_available = False\<rparr>"

definition no_gpu :: gpu_query where
  "no_gpu = \<lparr>nvmlDeviceGetCount = Some 0, nvmlDeviceGetName = (\<lambda>i. None),
             nvmlDeviceGetUtilizationRates = (\<lambda>i. None), getGPUs = Some []\<rparr>"

definition two_fallback_gpus :: gpu_query where
  "two_fallback_gpus =
     \<lparr>nvmlDeviceGetCount = Some 0, nvmlDeviceGetName = (\<lambda>i. None),
      nvmlDeviceGetUtilizationRates = (\<lambda>i. None),
      getGPUs = Some [\<lparr>gpu_name = ''Arc A770'', load = Finite (1 / 4)\<rparr>,
                      \<lparr>gpu_name = ''Radeon RX 7600'', load = Finite (1 / 2)\<rparr>]\<rparr>"

definition one_native_gpu :: gpu_query where
  "one_native_gpu =
     \<lparr>nvmlDeviceGetCount = Some 1, nvmlDeviceGetName = (\<lambda>i. Some ''RTX 4090''),
      nvmlDeviceGetUtilizationRates = (\<lambda>i. Some 37), getGPUs = Some []\<rparr>"

text \<open>Three native devices; the utilization query of device 1 raises.\<close>

definition three_native_gpus :: gpu_query where
  "three_native_gpus =
     \<lparr>nvmlDeviceGetCount = Some 3, nvmlDeviceGetName = (\<lambda>i. Some ''RTX 4090''),
      nvmlDeviceGetUtilizationRates = (\<lambda>i. if i = 1 then None else Some (40 + 10 * int i)),
      getGPUs = None\<rparr>"

text \<open>No native answer; the fallback backend lists one device for each given load.\<close>

definition fallback_loads :: "pyfloat list \<Rightarrow> gpu_query" where
  "fallback_loads ls =
     \<lparr>nvmlDeviceGetCount = None, nvmlDeviceGetName = (\<lambda>i. None),
      nvmlDeviceGetUtilizationRates = (\<lambda>i. None),
      getGPUs = Some (map (\<lambda>l. \<lparr>gpu_name = ''Arc A770'', load = l\<rparr>) ls)\<rparr>"

definition sample_tick :: "real \<Rightarrow> pernic option \<Rightarrow> sensors" where
  "sample_tick t counters =
     \<lparr>sensors_battery = Some None, cpu_percent = Some (578 / 10),
      virtual_memory_percent = Some 102, disk_usage_percent = None,
      gpu_backend = no_gpu, net_io_counters = counters, time_now = t\<rparr>"

definition battery_tick :: "battery option option \<Rightarrow> sensors" where
  "battery_tick b = (sample_tick 10 None)\<lparr>sensors_battery := b\<rparr>"

definition gpu_tick :: "gpu_query \<Rightarrow> sensors" where
  "gpu_tick q = (sample_tick 10 None)\<lparr>gpu_backend := q\<rparr>"

definition eth0 :: "int \<Rightarrow> int \<Rightarrow> string \<times> nic_stats" where
  "eth0 s r = (''eth0'', \<lparr>bytes_sent = s, bytes_recv = r\<rparr>)"

definition wlan0 :: "int \<Rightarrow> int \<Rightarrow> string \<times> nic_stats" where
  "wlan0 s r = (''wlan0'', \<lparr>bytes_sent = s, bytes_recv = r\<rparr>)"


section \<open>Display rows are clamped\<close>

lemma update_value_bar:
  "bar (update_value row v) =
     (case py_int (if v = PyNone then PyInt 0 else v) of
        Inr n \<Rightarrow> max 0 (min 100 n) | Inl e \<Rightarrow> 0)"
  by (simp add: update_value_def Let_def)

lemma update_value_range: "0 \<le> bar (update_value row v) \<and> bar (update_value row v) \<le> 100"
  by (simp add: update_value_bar split: sum.split)

lemma update_value_label [simp]: "label (update_value row v) = label row"
  by (simp add: update_value_def Let_def)

lemma update_value_text:
  "value_label (update_value row v) = str_int (bar (update_value row v)) @ ''%''"
  by (simp add: update_value_def Let_def)

lemma update_value_int [simp]:
  "update_value row (PyInt n) =
     row\<lparr>bar := max 0 (min 100 n), value_label := str_int (max 0 (min 100 n)) @ ''%''\<rparr>"
  by (simp add: update_value_def Let_def)

text \<open>
  C3. Whatever value reaches \<^verbatim>\<open>StatRow.update_value\<close> -- \<^verbatim>\<open>None\<close>, a negative number, a
  value above 100, a value that \<^verbatim>\<open>int()\<close> rejects -- the row shows an integer between 0 and
  100, and the text beside the bar is that integer followed by a percent sign. \<^verbatim>\<open>None\<close>
  and every value that \<^verbatim>\<open>int()\<close> rejects (non-numeric strings, objects, NaN and the
  infinities) show 0; a value that \<^verbatim>\<open>int()\<close> converts to \<open>n\<close> shows \<open>n\<close> saturated at the
  two ends.
\<close>

theorem update_value_clamped:
  "0 \<le> bar (update_value row v) \<and> bar (update_value row v) \<le> 100
   \<and> value_label (update_value row v) = str_int (bar (update_value row v)) @ ''%''
   \<and> (v = PyNone \<longrightarrow> bar (update_value row v) = 0)
   \<and> (\<forall>e. py_int v = Inl e \<longrightarrow> bar (update_value row v) = 0)
   \<and> (\<forall>n. py_int v = Inr n \<longrightarrow>
          bar (update_value row v) = (if n < 0 then 0 else if 100 < n then 100 else n))"
proof -
  have "v = PyNone \<longrightarrow> bar (update_value row v) = 0"
    by (simp add: update_value_bar)
  moreover have "\<forall>e. py_int v = Inl e \<longrightarrow> bar (update_value row v) = 0"
    by (cases "v = PyNone") (simp_all add: update_value_bar)
  moreover have "\<forall>n. py_int v = Inr n \<longrightarrow>
      bar (update_value row v) = (if n < 0 then 0 else if 100 < n then 100 else n)"
    by (cases "v = PyNone") (auto simp: update_value_bar)
  ultimately show ?thesis
    using update_value_range [of row v] update_value_text [of row v] by blast
qed

theorem update_value_clamped_witness:
  "bar (update_value (StatRow ''RAM'') (PyInt 102)) = 100
   \<and> value_label (update_value (StatRow ''RAM'') (PyInt 102)) = ''100%''
   \<and> bar (update_value (StatRow ''RAM'') (PyInt (- 5))) = 0
   \<and> bar (update_value (StatRow ''RAM'') PyNone) = 0
   \<and> bar (update_value (StatRow ''RAM'') (PyStr ''n/a'')) = 0
   \<and> bar (update_value (StatRow ''RAM'') (PyFloat PosInf)) = 0
   \<and> bar (update_value (StatRow ''CPU'') (PyFloat (Finite (578 / 10)))) = 57"
proof -
  note c = update_value_clamped
  have s: "py_int (PyStr ''n/a'') = Inl ValueError"
    by (simp add: int_of_str_def strip_def is_space_def parse_unsigned_def digit_val_def)
  have f: "py_int (PyFloat (Finite (578 / 10))) = Inr 57"
    by (simp add: py_trunc_def)
  have t: "str_int 100 = ''100''"
    by (simp add: str_int_def str_nat.simps digit_char_def)
  have 1: "bar (update_value (StatRow ''RAM'') (PyInt 102)) = 100"
    using c [of "StatRow ''RAM''" "PyInt 102"] by simp
  have "value_label (update_value (StatRow ''RAM'') (PyInt 102)) =
          str_int (bar (update_value (StatRow ''RAM'') (PyInt 102))) @ ''%''"
    using c [of "StatRow ''RAM''" "PyInt 102"] by blast
  then have 2: "value_label (update_value (StatRow ''RAM'') (PyInt 102)) = ''100%''"
    unfolding 1 t by simp
  have 3: "bar (update_value (StatRow ''RAM'') (PyInt (- 5))) = 0"
    using c [of "StatRow ''RAM''" "PyInt (- 5)"] by simp
  have 4: "bar (update_value (StatRow ''RAM'') PyNone) = 0"
    using c [of "StatRow ''RAM''" PyNone] by blast
  have 5: "bar (update_value (StatRow ''RAM'') (PyStr ''n/a'')) = 0"
    using c [of "StatRow ''RAM''" "PyStr ''n/a''"] s by blast
  have 6: "bar (update_value (StatRow ''RAM'') (PyFloat PosInf)) = 0"
    using c [of "StatRow ''RAM''" "PyFloat PosInf"] by simp
  have "bar (update_value (StatRow ''CPU'') (PyFloat (Finite (578 / 10)))) =
          (if (57::int) < 0 then 0 else if 100 < (57::int) then 100 else 57)"
    using c [of "StatRow ''CPU''" "PyFloat (Finite (578 / 10))"] f by blast
  then have 7: "bar (update_value (StatRow ''CPU'') (PyFloat (Finite (578 / 10)))) = 57"
    by simp
  from 1 2 3 4 5 6 7 show ?thesis by blast
qed


section \<open>The network row\<close>

lemma elapsed_pos: "0 < elapsed now prev"
  by (simp add: elapsed_def Let_def)

lemma net_pct_eq:
  "net_pct prev cur now =
     Inr (min 100 (py_trunc
       ((((of_int (bytes_sent cur - sent prev) / elapsed now prev
           + of_int (bytes_recv cur - recv prev) / elapsed now prev) / 1024) / 102400) * 100)))"
proof -
  have ne: "elapsed now prev \<noteq> 0"
    using elapsed_pos [of now prev] by simp
  show ?thesis
    by (simp only: net_pct_def py_truediv_def Let_def ne if_False sum.case)
qed

lemma top_nic_loop_None:
  "top_nic_loop items tp t = None \<longleftrightarrow>
     tp = None \<and> (\<forall>y \<in> set items. bytes_sent (snd y) + bytes_recv (snd y) \<le> t)"
proof (induction items arbitrary: tp t)
  case Nil
  show ?case by simp
next
  case (Cons a items)
  obtain n s where a: "a = (n, s)" by (cases a)
  show ?case
    unfolding a using Cons.IH by (auto simp: Let_def)
qed

lemma top_nic_loop_Some:
  "top_nic_loop items tp t = Some x \<Longrightarrow>
     (x \<in> set items \<and> t < bytes_sent (snd x) + bytes_recv (snd x)
        \<and> (\<forall>y \<in> set items. bytes_sent (snd y) + bytes_recv (snd y)
                               \<le> bytes_sent (snd x) + bytes_recv (snd x)))
     \<or> (Some x = tp \<and> (\<forall>y \<in> set items. bytes_sent (snd y) + bytes_recv (snd y) \<le> t))"
proof (induction items arbitrary: tp t)
  case Nil
  then show ?case by simp
next
  case (Cons a items)
  obtain n s where a: "a = (n, s)" by (cases a)
  show ?case
  proof (cases "bytes_sent s + bytes_recv s > t")
    case True
    with Cons.prems have "top_nic_loop items (Some (n, s)) (bytes_sent s + bytes_recv s) = Some x"
      by (simp add: a Let_def)
    from Cons.IH [OF this] True show ?thesis
      by (auto simp: a)
  next
    case False
    with Cons.prems have "top_nic_loop items tp t = Some x"
      by (simp add: a Let_def)
    from Cons.IH [OF this] False show ?thesis
      by (auto simp: a)
  qed
qed

lemma selected_positive:
  "top_nic_loop items None 0 \<noteq> None \<longleftrightarrow>
     (\<exists>y \<in> set items. 0 < bytes_sent (snd y) + bytes_recv (snd y))"
  by (auto simp: top_nic_loop_None not_le)

lemma update_network_raise: "update_network None now w = zero_net w"
  by (simp add: update_network_def)

lemma update_network_idle:
  "top_nic_loop items None 0 = None \<Longrightarrow> update_network (Some items) now w = zero_net w"
  by (simp add: update_network_def network_body_def)

lemma update_network_fresh:
  "top_nic_loop items None 0 = Some (nic, cur) \<Longrightarrow> previous_net w = None \<Longrightarrow>
   update_network (Some items) now w =
     (zero_net w)\<lparr>previous_net :=
        Some \<lparr>name = nic, sent = bytes_sent cur, recv = bytes_recv cur, time = now\<rparr>\<rparr>"
  by (simp add: update_network_def network_body_def)

lemma update_network_changed:
  "top_nic_loop items None 0 = Some (nic, cur) \<Longrightarrow> previous_net w = Some prev \<Longrightarrow>
   name prev \<noteq> nic \<Longrightarrow>
   update_network (Some items) now w =
     (zero_net w)\<lparr>previous_net :=
        Some \<lparr>name = nic, sent = bytes_sent cur, recv = bytes_recv cur, time = now\<rparr>\<rparr>"
  by (simp add: update_network_def network_body_def)

lemma update_network_same:
  "top_nic_loop items None 0 = Some (nic, cur) \<Longrightarrow> previous_net w = Some prev \<Longrightarrow>
   name prev = nic \<Longrightarrow> net_pct prev cur now = Inr pct \<Longrightarrow>
   update_network (Some items) now w =
     w\<lparr>row_net := update_value ((row_net w)\<lparr>label := ''NETWORK ('' @ nic @ '')''\<rparr>) (PyInt pct),
       previous_net :=
        Some \<lparr>name = nic, sent = bytes_sent cur, recv = bytes_recv cur, time = now\<rparr>\<rparr>"
  by (simp add: update_network_def network_body_def)

lemma previous_net_selected:
  assumes "top_nic_loop items None 0 = Some (nic, cur)"
  shows "previous_net (update_network (Some items) now w) =
           Some \<lparr>name = nic, sent = bytes_sent cur, recv = bytes_recv cur, time = now\<rparr>"
proof (cases "previous_net w")
  case None
  then show ?thesis by (simp add: update_network_fresh [OF assms])
next
  case (Some prev)
  show ?thesis
  proof (cases "name prev = nic")
    case True
    show ?thesis
      by (simp add: update_network_same [OF assms Some True net_pct_eq])
  next
    case False
    then show ?thesis by (simp add: update_network_changed [OF assms Some])
  qed
qed

lemma bar_zero_net: "bar (row_net (zero_net w)) = 0"
  by (simp add: zero_net_def)

lemma str_int_0: "str_int 0 = ''0''"
  by (simp add: str_int_def str_nat.simps digit_char_def)

lemma text_zero_net: "value_label (row_net (zero_net w)) = ''0%''"
  by (simp add: zero_net_def str_int_0)

lemma previous_zero_net: "previous_net (zero_net w) = previous_net w"
  by (simp add: zero_net_def)

lemma py_trunc_nonneg: "0 \<le> x \<Longrightarrow> py_trunc x = \<lfloor>x\<rfloor>"
  by (simp add: py_trunc_def)

lemma two_ticks_same:
  assumes s1: "top_nic_loop items1 None 0 = Some (nic, c1)"
    and s2: "top_nic_loop items2 None 0 = Some (nic, c2)"
  shows "row_net (update_network (Some items2) t2 (update_network (Some items1) t1 w)) =
           update_value
             ((row_net (update_network (Some items1) t1 w))\<lparr>label := ''NETWORK ('' @ nic @ '')''\<rparr>)
             (PyInt (min 100 (py_trunc
               ((((of_int (bytes_sent c2 - bytes_sent c1)
                     / elapsed t2 \<lparr>name = nic, sent = bytes_sent c1, recv = bytes_recv c1, time = t1\<rparr>
                  + of_int (bytes_recv c2 - bytes_recv c1)
                     / elapsed t2 \<lparr>name = nic, sent = bytes_sent c1, recv = bytes_recv c1, time = t1\<rparr>)
                  / 1024) / 102400) * 100))))"
proof -
  let ?st = "\<lparr>name = nic, sent = bytes_sent c1, recv = bytes_recv c1, time = t1\<rparr>"
  have p: "previous_net (update_network (Some items1) t1 w) = Some ?st"
    by (rule previous_net_selected [OF s1])
  have n: "name ?st = nic" by simp
  show ?thesis
    using update_network_same [OF s2 p n net_pct_eq, of t2] by simp
qed

lemma rate_floor:
  fixes T :: real
  assumes "0 \<le> S" "0 \<le> R" "0 < T"
  shows "max 0 (min 100 (min 100 (py_trunc ((((of_int S / T + of_int R / T) / 1024) / 102400) * 100))))
         = min 100 \<lfloor>((of_int (S + R) / T) / 1024) / 102400 * 100\<rfloor>"
proof -
  let ?x = "((of_int (S + R) / T) / 1024) / 102400 * 100"
  have e: "(((of_int S / T + of_int R / T) / 1024) / 102400) * 100 = ?x"
    by (simp add: add_divide_distrib)
  have "0 \<le> (of_int (S + R) :: real)" using assms by simp
  then have nn: "0 \<le> ?x" using assms(3) by simp
  then have "0 \<le> \<lfloor>?x\<rfloor>" by simp
  then show ?thesis
    unfolding e py_trunc_nonneg [OF nn] by simp
qed

text \<open>The network block reads and writes only the network row and the carried state.\<close>

lemma net_frame:
  assumes "row_net w' = row_net w" and "previous_net w' = previous_net w"
  shows "row_net (update_network c t w') = row_net (update_network c t w)"
    and "previous_net (update_network c t w') = previous_net (update_network c t w)"
  using assms
  by (auto simp: update_network_def network_body_def zero_net_def
           split: option.splits sum.splits prod.splits)

lemma update_network_others:
  "gpu_rows (update_network c t w) = gpu_rows w"
  "batt_label (update_network c t w) = batt_label w"
  by (auto simp: update_network_def network_body_def zero_net_def
           split: option.splits sum.splits prod.splits)

lemma update_battery_others:
  "row_net (update_battery b w) = row_net w"
  "previous_net (update_battery b w) = previous_net w"
  "gpu_rows (update_battery b w) = gpu_rows w"
  by (auto simp: update_battery_def Let_def split: option.splits prod.splits)

lemma row_net_update_stats:
  "row_net (update_stats caps env w) =
     row_net (update_network (net_io_counters env) (time_now env) w)"
  unfolding update_stats_def Let_def
  by (rule net_frame(1)) (simp_all add: update_battery_others)

lemma previous_net_update_stats:
  "previous_net (update_stats caps env w) =
     previous_net (update_network (net_io_counters env) (time_now env) w)"
  unfolding update_stats_def Let_def
  by (rule net_frame(2)) (simp_all add: update_battery_others)

lemma gpu_rows_update_stats:
  "gpu_rows (update_stats caps env w) = update_gpus caps (gpu_backend env) (gpu_rows w)"
  by (simp add: update_stats_def Let_def update_network_others update_battery_others)

lemma batt_label_update_stats:
  "batt_label (update_stats caps env w) = batt_label (update_battery (sensors_battery env) w)"
  by (simp add: update_stats_def Let_def update_network_others)

lemma two_stats_ticks:
  "row_net (update_stats caps e2 (update_stats caps e1 w)) =
     row_net (update_network (net_io_counters e2) (time_now e2)
                (update_network (net_io_counters e1) (time_now e1) w))"
  unfolding row_net_update_stats [of caps e2]
  by (rule net_frame(1)) (rule row_net_update_stats previous_net_update_stats)+

lemma previous_net_new [simp]: "previous_net (OverlayWindow caps q) = None"
  by (simp add: OverlayWindow_def detect_gpus_and_populate_def build_ui_def Let_def
           split: prod.splits)

lemma top_eth0 [simp]: "top_nic_loop [eth0 s r] None 0 = (if 0 < s + r then Some (eth0 s r) else None)"
  by (simp add: eth0_def Let_def)

lemma sample_tick_simps [simp]:
  "net_io_counters (sample_tick t c) = c" "time_now (sample_tick t c) = t"
  by (simp_all add: sample_tick_def)


subsection \<open>C1: the percent of two ticks on the same interface\<close>




subsection \<open>C2: the divisor of the rate\<close>

text \<open>
  C2, as amended. For every measured elapsed time \<open>\<Delta>t\<close> between two consecutive
  same-interface ticks, the divisor actually used in the throughput computation is
  positive: a \<open>\<Delta>t\<close> that is zero or negative is replaced by 1.0, a positive \<open>\<Delta>t\<close> is
  used as it is, also below 1.0. In particular \<open>\<Delta>t = 0\<close> is treated as 1.0, so the rate
  division never divides by zero and the percent is always computed.
\<close>

theorem elapsed_guard:
  "0 < elapsed now prev
   \<and> (now - time prev \<le> 0 \<longrightarrow> elapsed now prev = 1)
   \<and> (0 < now - time prev \<longrightarrow> elapsed now prev = now - time prev)
   \<and> net_pct prev cur now =
       Inr (min 100 (py_trunc
         ((((of_int (bytes_sent cur - sent prev) / elapsed now prev
             + of_int (bytes_recv cur - recv prev) / elapsed now prev) / 1024) / 102400) * 100)))"
proof -
  have "now - time prev \<le> 0 \<longrightarrow> elapsed now prev = 1"
    by (simp add: elapsed_def Let_def)
  moreover have "0 < now - time prev \<longrightarrow> elapsed now prev = now - time prev"
    by (simp add: elapsed_def Let_def)
  ultimately show ?thesis
    using elapsed_pos [of now prev] net_pct_eq [of prev cur now] by blast
qed

theorem elapsed_guard_witness:
  "elapsed 10 \<lparr>name = ''eth0'', sent = 1000, recv = 500, time = 10\<rparr> = 1
   \<and> elapsed 12 \<lparr>name = ''eth0'', sent = 1000, recv = 500, time = 10\<rparr> = 2
   \<and> net_pct \<lparr>name = ''eth0'', sent = 1000, recv = 500, time = 10\<rparr>
        \<lparr>bytes_sent = 52429800, bytes_recv = 500\<rparr> 10 = Inr 50"
proof -
  let ?prev = "\<lparr>name = ''eth0'', sent = 1000, recv = 500, time = 10\<rparr>"
  let ?cur = "\<lparr>bytes_sent = 52429800, bytes_recv = 500\<rparr>"
  have 1: "elapsed 10 ?prev = 1"
    using elapsed_guard [of 10 ?prev ?cur] by simp
  have 2: "elapsed 12 ?prev = 2"
    using elapsed_guard [of 12 ?prev ?cur] by simp
  have "net_pct ?prev ?cur 10 =
      Inr (min 100 (py_trunc
         ((((of_int (bytes_sent ?cur - sent ?prev) / elapsed 10 ?prev
             + of_int (bytes_recv ?cur - recv ?prev) / elapsed 10 ?prev) / 1024) / 102400) * 100)))"
    using elapsed_guard [of 10 ?prev ?cur] by blast
  then have 3: "net_pct ?prev ?cur 10 = Inr 50"
    unfolding 1 by (simp add: py_trunc_def)
  from 1 2 3 show ?thesis by blast
qed

text \<open>
  The claim as it is worded fails for a positive \<open>\<Delta>t\<close> below one: half a second stays
  half a second, and 50 MiB in that half second show as 100 percent, where a divisor
  floored at 1.0 would give 50.
\<close>

theorem elapsed_floor_counterexample:
  "elapsed (21 / 2) \<lparr>name = ''eth0'', sent = 1000, recv = 500, time = 10\<rparr> = 1 / 2
   \<and> \<not> 1 \<le> elapsed (21 / 2) \<lparr>name = ''eth0'', sent = 1000, recv = 500, time = 10\<rparr>
   \<and> net_pct \<lparr>name = ''eth0'', sent = 1000, recv = 500, time = 10\<rparr>
        \<lparr>bytes_sent = 52429800, bytes_recv = 500\<rparr> (21 / 2) = Inr 100"
  by (simp add: elapsed_def net_pct_def py_truediv_def py_trunc_def Let_def)


subsection \<open>C6: a changed selection shows zero\<close>

lemma changed_zero:
  assumes "top_nic_loop items None 0 = Some (nic, cur)"
    and "previous_net w = None \<or> (\<exists>prev. previous_net w = Some prev \<and> name prev \<noteq> nic)"
  shows "row_net (update_network (Some items) now w) = row_net (zero_net w)"
  using assms(2)
proof
  assume "previous_net w = None"
  then show ?thesis by (simp add: update_network_fresh [OF assms(1)])
next
  assume "\<exists>prev. previous_net w = Some prev \<and> name prev \<noteq> nic"
  then obtain prev where "previous_net w = Some prev" and "name prev \<noteq> nic" by blast
  then show ?thesis by (simp add: update_network_changed [OF assms(1)])
qed




subsection \<open>C10: the carried state\<close>

text \<open>
  C10. On every tick in which some interface has a positive cumulative total of sent and
  received bytes, an interface is selected and the sampler overwrites the carried state
  with that interface's name, its two counters and the tick's timestamp, whatever the
  state was before (so also on the tick on which the selection changed); on the very next
  tick, if the same interface is selected again, the percent is computed from the deltas
  against that stored tick. On a tick where no interface has positive traffic nothing is
  selected and the carried state is left as it was.
\<close>

theorem carried_state_overwritten:
  "((\<exists>y \<in> set items. 0 < bytes_sent (snd y) + bytes_recv (snd y))
      \<longleftrightarrow> top_nic_loop items None 0 \<noteq> None)
   \<and> (net_io_counters env = Some items \<and> top_nic_loop items None 0 = Some (nic, cur)
     \<longrightarrow> previous_net (update_stats caps env w) =
           Some \<lparr>name = nic, sent = bytes_sent cur, recv = bytes_recv cur, time = time_now env\<rparr>)
   \<and> (net_io_counters env = Some items \<and> top_nic_loop items None 0 = None
     \<longrightarrow> previous_net (update_stats caps env w) = previous_net w)
   \<and> (net_io_counters env = Some items \<and> top_nic_loop items None 0 = Some (nic, cur)
      \<and> net_io_counters e2 = Some items2 \<and> top_nic_loop items2 None 0 = Some (nic, c2)
     \<longrightarrow> bar (row_net (update_stats caps e2 (update_stats caps env w))) =
           max 0 (min 100 (py_trunc
             ((((of_int (bytes_sent c2 - bytes_sent cur)
                   / (if time_now e2 - time_now env \<le> 0 then 1 else time_now e2 - time_now env)
                 + of_int (bytes_recv c2 - bytes_recv cur)
                   / (if time_now e2 - time_now env \<le> 0 then 1 else time_now e2 - time_now env))
                / 1024) / 102400) * 100))))"
proof (intro conjI impI)
  show "(\<exists>y \<in> set items. 0 < bytes_sent (snd y) + bytes_recv (snd y))
      \<longleftrightarrow> top_nic_loop items None 0 \<noteq> None"
    using selected_positive [of items] by blast
next
  assume "net_io_counters env = Some items \<and> top_nic_loop items None 0 = Some (nic, cur)"
  then show "previous_net (update_stats caps env w) =
           Some \<lparr>name = nic, sent = bytes_sent cur, recv = bytes_recv cur, time = time_now env\<rparr>"
    by (simp add: previous_net_update_stats previous_net_selected)
next
  assume "net_io_counters env = Some items \<and> top_nic_loop items None 0 = None"
  then show "previous_net (update_stats caps env w) = previous_net w"
    by (simp add: previous_net_update_stats update_network_idle previous_zero_net)
next
  assume a: "net_io_counters env = Some items \<and> top_nic_loop items None 0 = Some (nic, cur)
      \<and> net_io_counters e2 = Some items2 \<and> top_nic_loop items2 None 0 = Some (nic, c2)"
  then have s1: "top_nic_loop items None 0 = Some (nic, cur)"
    and s2: "top_nic_loop items2 None 0 = Some (nic, c2)" by simp_all
  have "row_net (update_stats caps e2 (update_stats caps env w)) =
          row_net (update_network (Some items2) (time_now e2)
                     (update_network (Some items) (time_now env) w))"
    using a by (simp add: two_stats_ticks)
  then show "bar (row_net (update_stats caps e2 (update_stats caps env w))) =
           max 0 (min 100 (py_trunc
             ((((of_int (bytes_sent c2 - bytes_sent cur)
                   / (if time_now e2 - time_now env \<le> 0 then 1 else time_now e2 - time_now env)
                 + of_int (bytes_recv c2 - bytes_recv cur)
                   / (if time_now e2 - time_now env \<le> 0 then 1 else time_now e2 - time_now env))
                / 1024) / 102400) * 100)))"
    unfolding two_ticks_same [OF s1 s2] by (simp add: elapsed_def Let_def)
qed

theorem carried_state_overwritten_witness:
  "previous_net (update_stats both_backends (sample_tick 11 (Some [eth0 1000 500, wlan0 900000 900000]))
          (update_stats both_backends (sample_tick 10 (Some [eth0 1000 500, wlan0 0 0]))
             (OverlayWindow both_backends no_gpu)))
     = Some \<lparr>name = ''wlan0'', sent = 900000, recv = 900000, time = 11\<rparr>
   \<and> previous_net (update_stats both_backends (sample_tick 12 (Some [eth0 0 0, wlan0 0 0]))
          (update_stats both_backends (sample_tick 10 (Some [eth0 1000 500, wlan0 0 0]))
             (OverlayWindow both_backends no_gpu)))
     = Some \<lparr>name = ''eth0'', sent = 1000, recv = 500, time = 10\<rparr>
   \<and> bar (row_net (update_stats both_backends (sample_tick 12 (Some [eth0 1000 500, wlan0 27114400 27114400]))
          (update_stats both_backends (sample_tick 11 (Some [eth0 1000 500, wlan0 900000 900000]))
             (update_stats both_backends (sample_tick 10 (Some [eth0 1000 500, wlan0 0 0]))
                (OverlayWindow both_backends no_gpu))))) = 50"
proof -
  let ?i1 = "[eth0 1000 500, wlan0 0 0]"
  let ?i2 = "[eth0 1000 500, wlan0 900000 900000]"
  let ?i3 = "[eth0 1000 500, wlan0 27114400 27114400]"
  let ?i0 = "[eth0 0 0, wlan0 0 0]"
  let ?w = "OverlayWindow both_backends no_gpu"
  let ?w1 = "update_stats both_backends (sample_tick 10 (Some ?i1)) ?w"
  have s0: "top_nic_loop ?i0 None 0 = None"
    by (simp add: eth0_def wlan0_def Let_def)
  have s1: "top_nic_loop ?i1 None 0 = Some (''eth0'', \<lparr>bytes_sent = 1000, bytes_recv = 500\<rparr>)"
    by (simp add: eth0_def wlan0_def Let_def)
  have s2: "top_nic_loop ?i2 None 0 = Some (''wlan0'', \<lparr>bytes_sent = 900000, bytes_recv = 900000\<rparr>)"
    by (simp add: eth0_def wlan0_def Let_def)
  have s3: "top_nic_loop ?i3 None 0 = Some (''wlan0'', \<lparr>bytes_sent = 27114400, bytes_recv = 27114400\<rparr>)"
    by (simp add: eth0_def wlan0_def Let_def)
  have 0: "previous_net ?w1 = Some \<lparr>name = ''eth0'', sent = 1000, recv = 500, time = 10\<rparr>"
    using carried_state_overwritten
      [of ?i1 "sample_tick 10 (Some ?i1)" "''eth0''" "\<lparr>bytes_sent = 1000, bytes_recv = 500\<rparr>"
          both_backends ?w "sample_tick 10 (Some ?i1)" ?i1 "\<lparr>bytes_sent = 1000, bytes_recv = 500\<rparr>"]
      s1 by simp
  have 1: "previous_net (update_stats both_backends (sample_tick 11 (Some ?i2)) ?w1)
             = Some \<lparr>name = ''wlan0'', sent = 900000, recv = 900000, time = 11\<rparr>"
    using carried_state_overwritten
      [of ?i2 "sample_tick 11 (Some ?i2)" "''wlan0''" "\<lparr>bytes_sent = 900000, bytes_recv = 900000\<rparr>"
          both_backends ?w1 "sample_tick 12 (Some ?i3)" ?i3
          "\<lparr>bytes_sent = 27114400, bytes_recv = 27114400\<rparr>"]
      s2 by simp
  have 2: "previous_net (update_stats both_backends (sample_tick 12 (Some ?i0)) ?w1)
             = Some \<lparr>name = ''eth0'', sent = 1000, recv = 500, time = 10\<rparr>"
    using carried_state_overwritten
      [of ?i0 "sample_tick 12 (Some ?i0)" "''eth0''" "\<lparr>bytes_sent = 1000, bytes_recv = 500\<rparr>"
          both_backends ?w1 "sample_tick 12 (Some ?i0)" ?i0 "\<lparr>bytes_sent = 1000, bytes_recv = 500\<rparr>"]
      s0 0 by simp
  have 3: "bar (row_net (update_stats both_backends (sample_tick 12 (Some ?i3))
                  (update_stats both_backends (sample_tick 11 (Some ?i2)) ?w1))) = 50"
    using carried_state_overwritten
      [of ?i2 "sample_tick 11 (Some ?i2)" "''wlan0''" "\<lparr>bytes_sent = 900000, bytes_recv = 900000\<rparr>"
          both_backends ?w1 "sample_tick 12 (Some ?i3)" ?i3
          "\<lparr>bytes_sent = 27114400, bytes_recv = 27114400\<rparr>"]
      s2 s3 by (simp add: py_trunc_def)
  from 1 2 3 show ?thesis by blast
qed

section \<open>The GPU rows\<close>

subsection \<open>Enumeration\<close>

lemma nvml_names_None:
  "nvml_names get idxs = None \<longleftrightarrow> (\<exists>i \<in> set idxs. get i = None)"
  by (induction idxs) (auto split: option.splits)

lemma nvml_names_length:
  "nvml_names get idxs = Some names \<Longrightarrow> length names = length idxs"
  by (induction idxs arbitrary: names) (auto split: option.splits)

lemma native_enumerate_cases:
  "native_enumerate caps q = ([], 0) \<or>
   (\<exists>c names. NVML caps \<and> nvmlDeviceGetCount q = Some c \<and> 0 < c
      \<and> nvml_names (nvmlDeviceGetName q) [0..<c] = Some names \<and> length names = c
      \<and> native_enumerate caps q = (names, c))"
proof (cases "NVML caps")
  case False
  then show ?thesis by (simp add: native_enumerate_def)
next
  case True
  show ?thesis
  proof (cases "nvmlDeviceGetCount q")
    case None
    with True show ?thesis by (simp add: native_enumerate_def)
  next
    case (Some c)
    show ?thesis
    proof (cases "nvml_names (nvmlDeviceGetName q) [0..<c]")
      case None
      with True Some show ?thesis by (simp add: native_enumerate_def)
    next
      case (Some names)
      from nvml_names_length [OF this] have l: "length names = c" by simp
      show ?thesis
      proof (cases "c = 0")
        case True
        with l \<open>NVML caps\<close> \<open>nvmlDeviceGetCount q = Some c\<close> Some show ?thesis
          by (simp add: native_enumerate_def)
      next
        case False
        with l \<open>NVML caps\<close> \<open>nvmlDeviceGetCount q = Some c\<close> Some show ?thesis
          by (simp add: native_enumerate_def)
      qed
    qed
  qed
qed

lemma native_names_empty:
  "fst (native_enumerate caps q) = [] \<longleftrightarrow>
     \<not> NVML caps \<or> nvmlDeviceGetCount q = None \<or> nvmlDeviceGetCount q = Some 0
     \<or> (\<exists>c i. nvmlDeviceGetCount q = Some c \<and> i < c \<and> nvmlDeviceGetName q i = None)"
proof (cases "NVML caps")
  case False
  then show ?thesis by (simp add: native_enumerate_def)
next
  case True
  show ?thesis
  proof (cases "nvmlDeviceGetCount q")
    case None
    with True show ?thesis by (simp add: native_enumerate_def)
  next
    case (Some c)
    show ?thesis
    proof (cases "nvml_names (nvmlDeviceGetName q) [0..<c]")
      case None
      then have "\<exists>i. i < c \<and> nvmlDeviceGetName q i = None"
        by (auto simp: nvml_names_None)
      with True Some None show ?thesis by (auto simp: native_enumerate_def)
    next
      case (Some names)
      from nvml_names_length [OF this] have l: "length names = c" by simp
      from Some have "\<not> (\<exists>i. i < c \<and> nvmlDeviceGetName q i = None)"
        using nvml_names_None [of "nvmlDeviceGetName q" "[0..<c]"] by auto
      with True \<open>nvmlDeviceGetCount q = Some c\<close> Some l show ?thesis
        by (auto simp: native_enumerate_def)
    qed
  qed
qed

lemma native_enumerate_empty:
  "fst (native_enumerate caps q) = [] \<Longrightarrow> native_enumerate caps q = ([], 0)"
  using native_enumerate_cases [of caps q] by auto

lemma populate_rows_names:
  "0 < n \<Longrightarrow> map fst (populate_rows names n) = names"
proof -
  have "map (fst \<circ> (\<lambda>(idx, nm). (nm, StatRow (''GPU'' @ str_int (int idx) @ '' ('' @ nm @ '')''))))
          (enumerate 0 names) = map snd (enumerate 0 names)"
    by (rule map_cong) auto
  then show "0 < n \<Longrightarrow> ?thesis"
    by (simp add: populate_rows_def)
qed

lemma populate_rows_labels:
  "0 < n \<Longrightarrow> map (label \<circ> snd) (populate_rows names n) =
     map (\<lambda>(idx, nm). ''GPU'' @ str_int (int idx) @ '' ('' @ nm @ '')'') (enumerate 0 names)"
  by (simp add: populate_rows_def StatRow_def split_def)

lemma enumerate_fallback:
  assumes "fallback_consulted caps q" and "getGPUs q = Some gpus"
  shows "enumerate_gpus caps q = (map gpu_name gpus, length gpus)"
proof -
  from assms(1) have "fst (native_enumerate caps q) = []"
    by (simp add: fallback_consulted_def)
  then have "native_enumerate caps q = ([], 0)"
    by (rule native_enumerate_empty)
  with assms show ?thesis
    by (simp add: enumerate_gpus_def)
qed



subsection \<open>Sampling\<close>

lemma zero_row: "update_value r (PyInt 0) = r\<lparr>bar := 0, value_label := ''0%''\<rparr>"
  by (simp add: str_int_0)

lemma zero_rows_bars: "map (bar \<circ> snd) (zero_rows rows) = replicate (length rows) 0"
  by (induction rows) (auto simp: zero_rows_def)

lemma update_value_shape: "label r' = label r \<Longrightarrow> update_value r' v = update_value r v"
  by (cases r; cases r') (simp add: update_value_def Let_def)

lemma zero_rows_shape:
  "map (apsnd label) rows' = map (apsnd label) rows \<Longrightarrow> zero_rows rows' = zero_rows rows"
proof (induction rows' arbitrary: rows)
  case Nil
  then show ?case by (simp add: zero_rows_def)
next
  case (Cons a rows')
  then obtain b rest where rows: "rows = b # rest" by (cases rows) auto
  with Cons.prems have h: "apsnd label a = apsnd label b"
    and t: "map (apsnd label) rows' = map (apsnd label) rest" by simp_all
  from h have f: "fst a = fst b" and l: "label (snd a) = label (snd b)"
    by (cases a; cases b; simp)+
  have "update_value (snd a) (PyInt 0) = update_value (snd b) (PyInt 0)"
    by (rule update_value_shape [OF l])
  with f have "(case a of (nm, row) \<Rightarrow> (nm, update_value row (PyInt 0))) =
               (case b of (nm, row) \<Rightarrow> (nm, update_value row (PyInt 0)))"
    by (simp add: split_def del: update_value_int)
  moreover from Cons.IH [OF t] have "zero_rows rows' = zero_rows rest" .
  ultimately show ?case by (simp add: rows zero_rows_def)
qed

lemma set_row_shape: "map (apsnd label) (set_row i v rows) = map (apsnd label) rows"
proof (cases "i < length rows")
  case True
  have "map (apsnd label) (set_row i v rows) =
          (map (apsnd label) rows)[i := apsnd label (rows ! i)]"
    by (simp add: set_row_def map_update apsnd_def map_prod_def split_def)
  also have "\<dots> = map (apsnd label) rows"
    using True by (simp add: list_update_same_conv)
  finally show ?thesis .
next
  case False
  then show ?thesis by (simp add: set_row_def not_less list_update_beyond)
qed

lemma set_row_length [simp]: "length (set_row i v rows) = length rows"
  by (simp add: set_row_def)

lemma nvml_loop_shape:
  "map (apsnd label) (fst (nvml_loop util count idxs rows)) = map (apsnd label) rows"
  by (induction idxs arbitrary: rows) (auto simp: set_row_shape split: option.splits)

lemma nvml_loop_fails:
  "snd (nvml_loop util count idxs rows) \<longleftrightarrow>
     \<not> (\<exists>i \<in> set idxs. i < count \<and> i < length rows \<and> util i = None)"
  by (induction idxs arbitrary: rows) (auto split: option.splits)

lemma gputil_loop_shape:
  "map (apsnd label) (fst (gputil_loop gpus idx rows)) = map (apsnd label) rows"
  by (induction rows arbitrary: idx) (auto simp: split_def Let_def split: sum.splits)

lemma gputil_loop_cong:
  "map (apsnd label) rows' = map (apsnd label) rows \<Longrightarrow>
   snd (gputil_loop gpus idx rows') = snd (gputil_loop gpus idx rows)
   \<and> (snd (gputil_loop gpus idx rows) \<longrightarrow>
        fst (gputil_loop gpus idx rows') = fst (gputil_loop gpus idx rows))"
proof (induction rows' arbitrary: rows idx)
  case Nil
  then show ?case by simp
next
  case (Cons a rows')
  then obtain b rest where rows: "rows = b # rest" by (cases rows) auto
  obtain n r where a: "a = (n, r)" by (cases a)
  obtain m s where b: "b = (m, s)" by (cases b)
  from Cons.prems have nm: "n = m" and l: "label r = label s"
    and t: "map (apsnd label) rows' = map (apsnd label) rest"
    by (simp_all add: rows a b)
  note ih = Cons.IH [OF t, of "Suc idx"]
  have u: "\<And>v. update_value r v = update_value s v"
    by (rule update_value_shape [OF l])
  show ?case
    unfolding rows a b nm using ih
    by (simp add: u split_def Let_def split: sum.splits del: update_value_int)
qed

lemma update_gpus_gputil_shape:
  assumes "map (apsnd label) rows' = map (apsnd label) rows"
  shows "update_gpus_gputil caps q rows' = update_gpus_gputil caps q rows"
proof (cases "GPUtil_available caps")
  case False
  then show ?thesis by (simp add: update_gpus_gputil_def zero_rows_shape [OF assms])
next
  case True
  show ?thesis
  proof (cases "getGPUs q")
    case None
    with True show ?thesis by (simp add: update_gpus_gputil_def zero_rows_shape [OF assms])
  next
    case (Some gpus)
    note c = gputil_loop_cong [OF assms, of gpus 0]
    show ?thesis
    proof (cases "snd (gputil_loop gpus 0 rows)")
      case True
      with c have "gputil_loop gpus 0 rows' = gputil_loop gpus 0 rows"
        by (simp add: prod_eq_iff)
      with \<open>GPUtil_available caps\<close> Some show ?thesis by (simp add: update_gpus_gputil_def)
    next
      case False
      with c have f: "\<not> snd (gputil_loop gpus 0 rows')" by simp
      have "map (apsnd label) (fst (gputil_loop gpus 0 rows')) =
              map (apsnd label) (fst (gputil_loop gpus 0 rows))"
        by (simp add: gputil_loop_shape assms)
      then have "zero_rows (fst (gputil_loop gpus 0 rows')) = zero_rows (fst (gputil_loop gpus 0 rows))"
        by (rule zero_rows_shape)
      with \<open>GPUtil_available caps\<close> Some False f show ?thesis
        by (simp add: update_gpus_gputil_def case_prod_unfold)
    qed
  qed
qed

lemma native_failure_falls_back:
  assumes "NVML caps" and "nvmlDeviceGetCount q = Some c"
    and "i < c" and "i < length rows" and "nvmlDeviceGetUtilizationRates q i = None"
  shows "update_gpus caps q rows = update_gpus_gputil caps q rows"
proof -
  let ?res = "nvml_loop (nvmlDeviceGetUtilizationRates q) c [0..<max (length rows) c] rows"
  have "i \<in> set [0..<max (length rows) c]" using assms(3) by simp
  with assms(3,4,5) have "\<not> snd ?res"
    unfolding nvml_loop_fails by blast
  then have "update_gpus caps q rows = update_gpus_gputil caps q (fst ?res)"
    using assms(1,2) by (simp add: update_gpus_def case_prod_unfold)
  also have "\<dots> = update_gpus_gputil caps q rows"
    by (rule update_gpus_gputil_shape) (rule nvml_loop_shape)
  finally show ?thesis .
qed

lemma gputil_loop_step:
  "snd (gputil_loop gpus idx ((n, r) # rest)) \<longleftrightarrow>
     \<not> (idx < length gpus
          \<and> (\<exists>e. py_int (PyFloat (float_times (load (gpus ! idx)) 100)) = Inl e))
     \<and> snd (gputil_loop gpus (Suc idx) rest)"
  by (simp add: split_def Let_def split: sum.splits)

lemma gputil_loop_fails:
  "snd (gputil_loop gpus idx rows) \<longleftrightarrow>
     \<not> (\<exists>k < length rows. idx + k < length gpus
           \<and> (\<exists>e. py_int (PyFloat (float_times (load (gpus ! (idx + k))) 100)) = Inl e))"
proof (induction rows arbitrary: idx)
  case Nil
  then show ?case by simp
next
  case (Cons a rows)
  obtain n r where a: "a = (n, r)" by (cases a)
  let ?bad = "\<lambda>j. j < length gpus
                 \<and> (\<exists>e. py_int (PyFloat (float_times (load (gpus ! j)) 100)) = Inl e)"
  have "(\<exists>k < Suc (length rows). ?bad (idx + k)) \<longleftrightarrow>
          ?bad idx \<or> (\<exists>k < length rows. ?bad (Suc idx + k))"
  proof
    assume "\<exists>k < Suc (length rows). ?bad (idx + k)"
    then obtain k where k: "k < Suc (length rows)" "?bad (idx + k)" by blast
    show "?bad idx \<or> (\<exists>k < length rows. ?bad (Suc idx + k))"
    proof (cases k)
      case 0
      with k show ?thesis by simp
    next
      case (Suc j)
      with k have "j < length rows" "?bad (Suc idx + j)" by simp_all
      then show ?thesis by blast
    qed
  next
    assume "?bad idx \<or> (\<exists>k < length rows. ?bad (Suc idx + k))"
    then show "\<exists>k < Suc (length rows). ?bad (idx + k)"
    proof
      assume "?bad idx"
      then have "0 < Suc (length rows) \<and> ?bad (idx + 0)" by simp
      then show ?thesis by blast
    next
      assume "\<exists>k < length rows. ?bad (Suc idx + k)"
      then obtain j where "j < length rows" "?bad (Suc idx + j)" by blast
      then have "Suc j < Suc (length rows) \<and> ?bad (idx + Suc j)" by simp
      then show ?thesis by blast
    qed
  qed
  then show ?case
    unfolding a gputil_loop_step Cons.IH [of "Suc idx"] by simp
qed

lemma fallback_failure_zeroes:
  assumes "GPUtil_available caps" and "getGPUs q = Some gpus"
    and "i < length gpus" and "i < length rows"
    and "py_int (PyFloat (float_times (load (gpus ! i)) 100)) = Inl e"
  shows "update_gpus_gputil caps q rows = zero_rows rows"
proof -
  have "\<not> snd (gputil_loop gpus 0 rows)"
    unfolding gputil_loop_fails using assms(3,4,5) by auto
  moreover have "zero_rows (fst (gputil_loop gpus 0 rows)) = zero_rows rows"
    by (rule zero_rows_shape) (rule gputil_loop_shape)
  ultimately show ?thesis
    using assms(1,2) by (simp add: update_gpus_gputil_def case_prod_unfold)
qed

lemma update_gpus_gputil_names: "map fst (update_gpus_gputil caps q rows) = map fst rows"
proof -
  have z: "\<And>rs. map fst (zero_rows rs) = map fst rs"
    by (simp add: zero_rows_def split_def)
  have g: "\<And>gpus. map fst (fst (gputil_loop gpus 0 rows)) = map fst rows"
  proof -
    fix gpus
    have "map fst (map (apsnd label) (fst (gputil_loop gpus 0 rows))) = map fst (map (apsnd label) rows)"
      by (simp only: gputil_loop_shape)
    then show "map fst (fst (gputil_loop gpus 0 rows)) = map fst rows"
      by (simp add: comp_def)
  qed
  show ?thesis
    using g by (simp add: update_gpus_gputil_def z case_prod_unfold split: option.splits bool.splits)
qed

lemma update_gpus_names: "map fst (update_gpus caps q rows) = map fst rows"
proof -
  have n: "\<And>c. map fst (fst (nvml_loop (nvmlDeviceGetUtilizationRates q) c [0..<max (length rows) c] rows))
             = map fst rows"
  proof -
    fix c
    let ?r = "fst (nvml_loop (nvmlDeviceGetUtilizationRates q) c [0..<max (length rows) c] rows)"
    have "map fst (map (apsnd label) ?r) = map fst (map (apsnd label) rows)"
      by (simp only: nvml_loop_shape)
    then show "map fst ?r = map fst rows" by (simp add: comp_def)
  qed
  show ?thesis
    using n
    by (simp add: update_gpus_def update_gpus_gputil_names case_prod_unfold
          split: option.splits bool.splits)
qed

lemma OverlayWindow_rows:
  "gpu_rows (OverlayWindow caps q) =
     populate_rows (fst (enumerate_gpus caps q)) (snd (enumerate_gpus caps q))"
  by (simp add: OverlayWindow_def detect_gpus_and_populate_def split_def Let_def)

lemma three_native_rows:
  assumes "NVML caps"
  shows "gpu_rows (OverlayWindow caps three_native_gpus) =
     [(''RTX 4090'', StatRow ''GPU0 (RTX 4090)''), (''RTX 4090'', StatRow ''GPU1 (RTX 4090)''),
      (''RTX 4090'', StatRow ''GPU2 (RTX 4090)'')]"
proof -
  have u: "[0..<3] = [0, 1, 2]" by (simp add: upt_rec)
  have d: "str_int 0 = ''0''" "str_int 1 = ''1''" "str_int 2 = ''2''"
    by (simp_all add: str_int_def str_nat.simps digit_char_def)
  have "enumerate_gpus caps three_native_gpus = ([''RTX 4090'', ''RTX 4090'', ''RTX 4090''], 3)"
    using assms
    by (simp add: enumerate_gpus_def native_enumerate_def fallback_consulted_def
          three_native_gpus_def u)
  then show ?thesis
    by (simp add: OverlayWindow_rows populate_rows_def d)
qed

lemma gpu_tick_backend [simp]: "gpu_backend (gpu_tick q) = q"
  by (simp add: gpu_tick_def)


subsection \<open>C5: a failing device query\<close>

lemma fallback_path:
  "\<not> NVML caps \<or> nvmlDeviceGetCount q = None \<Longrightarrow>
   update_gpus caps q rows = update_gpus_gputil caps q rows"
  by (auto simp: update_gpus_def)

text \<open>
  C5, as amended. During per-tick GPU sampling a query failure on one individual device
  never leaves the tick and never changes the enumerated rows (count, order, names), but
  it is not confined to that device. In the native loop it abandons the loop, and every
  row is sampled again through the fallback path, so the tick ends as if the fallback path
  alone had run: each row shows the fallback backend's load for its index, and when the
  fallback backend is unavailable or its listing fails every row shows 0 for that tick.
  In the fallback path a device whose load does not convert sets every row to 0.
\<close>

theorem device_failure_not_isolated:
  "map fst (gpu_rows (update_stats caps env w)) = map fst (gpu_rows w)
   \<and> (NVML caps \<and> nvmlDeviceGetCount (gpu_backend env) = Some c \<and> i < c
        \<and> i < length (gpu_rows w) \<and> nvmlDeviceGetUtilizationRates (gpu_backend env) i = None
      \<longrightarrow> gpu_rows (update_stats caps env w) =
            update_gpus_gputil caps (gpu_backend env) (gpu_rows w)
          \<and> (\<not> GPUtil_available caps \<or> getGPUs (gpu_backend env) = None
              \<longrightarrow> map (bar \<circ> snd) (gpu_rows (update_stats caps env w)) =
                    replicate (length (gpu_rows w)) 0))
   \<and> ((\<not> NVML caps \<or> nvmlDeviceGetCount (gpu_backend env) = None)
        \<and> GPUtil_available caps \<and> getGPUs (gpu_backend env) = Some gpus \<and> i < length gpus
        \<and> i < length (gpu_rows w)
        \<and> py_int (PyFloat (float_times (load (gpus ! i)) 100)) = Inl e
      \<longrightarrow> map (bar \<circ> snd) (gpu_rows (update_stats caps env w)) =
            replicate (length (gpu_rows w)) 0)"
proof (intro conjI impI)
  show "map fst (gpu_rows (update_stats caps env w)) = map fst (gpu_rows w)"
    by (simp add: gpu_rows_update_stats update_gpus_names)
next
  assume a: "NVML caps \<and> nvmlDeviceGetCount (gpu_backend env) = Some c \<and> i < c
        \<and> i < length (gpu_rows w) \<and> nvmlDeviceGetUtilizationRates (gpu_backend env) i = None"
  then show f: "gpu_rows (update_stats caps env w) =
            update_gpus_gputil caps (gpu_backend env) (gpu_rows w)"
    by (simp add: gpu_rows_update_stats native_failure_falls_back [of caps _ c i])
  assume "\<not> GPUtil_available caps \<or> getGPUs (gpu_backend env) = None"
  then have "update_gpus_gputil caps (gpu_backend env) (gpu_rows w) = zero_rows (gpu_rows w)"
    by (auto simp: update_gpus_gputil_def)
  then show "map (bar \<circ> snd) (gpu_rows (update_stats caps env w)) =
               replicate (length (gpu_rows w)) 0"
    unfolding f by (simp only: zero_rows_bars)
next
  assume a: "(\<not> NVML caps \<or> nvmlDeviceGetCount (gpu_backend env) = None)
        \<and> GPUtil_available caps \<and> getGPUs (gpu_backend env) = Some gpus \<and> i < length gpus
        \<and> i < length (gpu_rows w)
        \<and> py_int (PyFloat (float_times (load (gpus ! i)) 100)) = Inl e"
  then have "gpu_rows (update_stats caps env w) =
               update_gpus_gputil caps (gpu_backend env) (gpu_rows w)"
    by (simp add: gpu_rows_update_stats fallback_path)
  also from a have "\<dots> = zero_rows (gpu_rows w)"
    by (simp add: fallback_failure_zeroes [of caps _ gpus i _ e])
  finally show "map (bar \<circ> snd) (gpu_rows (update_stats caps env w)) =
               replicate (length (gpu_rows w)) 0"
    by (simp only: zero_rows_bars)
qed

theorem device_failure_not_isolated_witness:
  "map fst (gpu_rows (update_stats native_only (gpu_tick three_native_gpus)
                        (OverlayWindow native_only three_native_gpus)))
     = [''RTX 4090'', ''RTX 4090'', ''RTX 4090'']
   \<and> map (bar \<circ> snd) (gpu_rows (update_stats native_only (gpu_tick three_native_gpus)
                                    (OverlayWindow native_only three_native_gpus)))
     = [0, 0, 0]
   \<and> map (bar \<circ> snd)
        (gpu_rows (update_stats both_backends
                     (gpu_tick (three_native_gpus\<lparr>getGPUs := getGPUs (fallback_loads
                        [Finite (1 / 4), Finite (1 / 2), Finite (3 / 4)])\<rparr>))
                     (OverlayWindow both_backends three_native_gpus)))
     = [25, 50, 75]
   \<and> map (bar \<circ> snd)
        (gpu_rows (update_stats both_backends
                     (gpu_tick (fallback_loads [Finite (1 / 4), NaN, Finite (3 / 4)]))
                     (OverlayWindow both_backends three_native_gpus)))
     = [0, 0, 0]"
proof -
  let ?w = "OverlayWindow native_only three_native_gpus"
  let ?v = "OverlayWindow both_backends three_native_gpus"
  let ?env = "gpu_tick three_native_gpus"
  let ?good = "fallback_loads [Finite (1 / 4), Finite (1 / 2), Finite (3 / 4)]"
  let ?bad = "fallback_loads [Finite (1 / 4), NaN, Finite (3 / 4)]"
  let ?mixed = "three_native_gpus\<lparr>getGPUs := getGPUs ?good\<rparr>"
  have n1: "NVML native_only" and n2: "NVML both_backends"
    and g2: "GPUtil_available both_backends"
    by (simp_all add: native_only_def both_backends_def)
  note rw = three_native_rows [OF n1]
  note rv = three_native_rows [OF n2]
  note t = device_failure_not_isolated [of native_only ?env ?w 3 1 "[]" TypeError]
  have p2: "nvmlDeviceGetCount (gpu_backend ?env) = Some 3" by (simp add: three_native_gpus_def)
  have p3: "(1::nat) < 3" by simp
  have p4: "1 < length (gpu_rows ?w)" by (simp add: rw)
  have p5: "nvmlDeviceGetUtilizationRates (gpu_backend ?env) 1 = None"
    by (simp add: three_native_gpus_def)
  have n: "\<not> GPUtil_available native_only \<or> getGPUs (gpu_backend ?env) = None"
    by (simp add: native_only_def)
  have 1: "map fst (gpu_rows (update_stats native_only ?env ?w)) = map fst (gpu_rows ?w)"
    using t by blast
  have 2: "map (bar \<circ> snd) (gpu_rows (update_stats native_only ?env ?w)) =
             replicate (length (gpu_rows ?w)) 0"
    using t n1 p2 p3 p4 p5 n by blast
  have m2: "nvmlDeviceGetCount (gpu_backend (gpu_tick ?mixed)) = Some 3"
    by (simp add: three_native_gpus_def)
  have m4: "1 < length (gpu_rows ?v)" by (simp add: rv)
  have m5: "nvmlDeviceGetUtilizationRates (gpu_backend (gpu_tick ?mixed)) 1 = None"
    by (simp add: three_native_gpus_def)
  have "gpu_rows (update_stats both_backends (gpu_tick ?mixed) ?v) =
          update_gpus_gputil both_backends (gpu_backend (gpu_tick ?mixed)) (gpu_rows ?v)"
    using device_failure_not_isolated [of both_backends "gpu_tick ?mixed" ?v 3 1 "[]" TypeError]
      n2 m2 p3 m4 m5 by blast
  then have 3: "map (bar \<circ> snd) (gpu_rows (update_stats both_backends (gpu_tick ?mixed) ?v))
                  = [25, 50, 75]"
    by (simp add: rv update_gpus_gputil_def g2 fallback_loads_def py_trunc_def)
  have b1: "\<not> NVML both_backends \<or> nvmlDeviceGetCount (gpu_backend (gpu_tick ?bad)) = None"
    by (simp add: fallback_loads_def)
  have b2: "getGPUs (gpu_backend (gpu_tick ?bad)) =
              Some (map (\<lambda>l. \<lparr>gpu_name = ''Arc A770'', load = l\<rparr>) [Finite (1 / 4), NaN, Finite (3 / 4)])"
    by (simp add: fallback_loads_def)
  have b3: "1 < length (map (\<lambda>l. \<lparr>gpu_name = ''Arc A770'', load = l\<rparr>) [Finite (1 / 4), NaN, Finite (3 / 4)])"
    by simp
  have b4: "py_int (PyFloat (float_times
              (load (map (\<lambda>l. \<lparr>gpu_name = ''Arc A770'', load = l\<rparr>) [Finite (1 / 4), NaN, Finite (3 / 4)] ! 1))
              100)) = Inl ValueError"
    by simp
  have 4: "map (bar \<circ> snd) (gpu_rows (update_stats both_backends (gpu_tick ?bad) ?v)) =
             replicate (length (gpu_rows ?v)) 0"
    using device_failure_not_isolated [of both_backends "gpu_tick ?bad" ?v 3 1
        "map (\<lambda>l. \<lparr>gpu_name = ''Arc A770'', load = l\<rparr>) [Finite (1 / 4), NaN, Finite (3 / 4)]"
        ValueError]
      b1 g2 b2 b3 m4 b4 by blast
  from 1 2 3 4 show ?thesis
    by (simp add: rw rv numeral_3_eq_3)
qed

text \<open>
  The claim as it is worded fails: with three native devices whose utilizations are 40,
  failing, and 60, and no fallback backend, the tick shows 0 for all three rows, where the
  claim has 40 and 60 beside the failed device's 0.
\<close>

theorem device_failure_counterexample:
  "nvmlDeviceGetUtilizationRates three_native_gpus 0 = Some 40
   \<and> nvmlDeviceGetUtilizationRates three_native_gpus 1 = None
   \<and> nvmlDeviceGetUtilizationRates three_native_gpus 2 = Some 60
   \<and> map (bar \<circ> snd) (gpu_rows (update_stats native_only (gpu_tick three_native_gpus)
                                    (OverlayWindow native_only three_native_gpus)))
       = [0, 0, 0]"
proof -
  have n1: "NVML native_only" by (simp add: native_only_def)
  note rw = three_native_rows [OF n1]
  have u: "[0..<3] = [0, 1, 2]" by (simp add: upt_rec)
  have "update_gpus native_only three_native_gpus
          (gpu_rows (OverlayWindow native_only three_native_gpus)) =
        zero_rows (gpu_rows (OverlayWindow native_only three_native_gpus))"
    unfolding rw
    by (simp add: update_gpus_def update_gpus_gputil_def native_only_def three_native_gpus_def
          u set_row_def zero_rows_def StatRow_def)
  then have "map (bar \<circ> snd) (gpu_rows (update_stats native_only (gpu_tick three_native_gpus)
                                    (OverlayWindow native_only three_native_gpus)))
       = replicate (length (gpu_rows (OverlayWindow native_only three_native_gpus))) 0"
    by (simp only: gpu_rows_update_stats gpu_tick_backend zero_rows_bars)
  then have "map (bar \<circ> snd) (gpu_rows (update_stats native_only (gpu_tick three_native_gpus)
                                    (OverlayWindow native_only three_native_gpus)))
       = [0, 0, 0]"
    by (simp add: rw numeral_3_eq_3)
  moreover have "nvmlDeviceGetUtilizationRates three_native_gpus 0 = Some 40
      \<and> nvmlDeviceGetUtilizationRates three_native_gpus 1 = None
      \<and> nvmlDeviceGetUtilizationRates three_native_gpus 2 = Some 60"
    by (simp add: three_native_gpus_def)
  ultimately show ?thesis by blast
qed


subsection \<open>C8: the placeholder row\<close>

lemma enumerate_none:
  assumes "\<not> NVML caps \<or> nvmlDeviceGetCount q = None \<or> nvmlDeviceGetCount q = Some 0"
    and "\<not> GPUtil_available caps \<or> getGPUs q = None \<or> getGPUs q = Some []"
  shows "enumerate_gpus caps q = ([], 0)"
proof -
  from assms(1) have "fst (native_enumerate caps q) = []"
    unfolding native_names_empty by blast
  then have n: "native_enumerate caps q = ([], 0)"
    by (rule native_enumerate_empty)
  from assms(2) show ?thesis
    by (auto simp: enumerate_gpus_def n fallback_consulted_def)
qed

lemma placeholder_tick:
  assumes "reports_no_gpu caps q"
  shows "update_gpus caps q [(nm, r)] = [(nm, update_value r (PyInt 0))]"
proof -
  have g: "(\<not> GPUtil_available caps \<or> getGPUs q = None \<or> getGPUs q = Some []) \<Longrightarrow>
        update_gpus_gputil caps q [(nm, r)] = [(nm, update_value r (PyInt 0))]"
    by (auto simp: update_gpus_gputil_def zero_rows_def simp del: update_value_int)
  show ?thesis
  proof (cases "NVML caps")
    case False
    with assms have "\<not> GPUtil_available caps \<or> getGPUs q = None \<or> getGPUs q = Some []"
      by (simp add: reports_no_gpu_def)
    with False show ?thesis by (simp add: update_gpus_def g)
  next
    case True
    show ?thesis
    proof (cases "nvmlDeviceGetCount q")
      case None
      with True assms have "\<not> GPUtil_available caps \<or> getGPUs q = None \<or> getGPUs q = Some []"
        by (simp add: reports_no_gpu_def)
      with True None show ?thesis by (simp add: update_gpus_def g)
    next
      case (Some c)
      with True assms have "c = 0" by (simp add: reports_no_gpu_def)
      with True Some show ?thesis
        by (simp add: update_gpus_def set_row_def del: update_value_int)
    qed
  qed
qed

lemma nvml_loop_tail:
  "\<forall>j \<in> set idxs. length rows \<le> j \<Longrightarrow> nvml_loop util count idxs rows = (rows, True)"
  by (induction idxs) auto

lemma placeholder_shows_device:
  assumes "NVML caps" and "nvmlDeviceGetCount q = Some (Suc n)"
    and "nvmlDeviceGetUtilizationRates q 0 = Some u"
  shows "update_gpus caps q [(nm, r)] = [(nm, update_value r (PyInt u))]"
proof -
  have u: "[0..<Suc n] = 0 # [Suc 0..<Suc n]"
    by (rule upt_conv_Cons) simp
  have m: "max (length [(nm, r)]) (Suc n) = Suc n" by simp
  have t: "nvml_loop (nvmlDeviceGetUtilizationRates q) (Suc n) [Suc 0..<Suc n]
             (set_row 0 (PyInt u) [(nm, r)]) = (set_row 0 (PyInt u) [(nm, r)], True)"
    by (rule nvml_loop_tail) auto
  have "nvml_loop (nvmlDeviceGetUtilizationRates q) (Suc n) [0..<Suc n] [(nm, r)] =
          (set_row 0 (PyInt u) [(nm, r)], True)"
    unfolding u using assms(3) t by simp
  then show ?thesis
    using assms(1,2) unfolding update_gpus_def m
    by (simp add: set_row_def del: update_value_int upt_Suc)
qed

lemma run_ticks_Cons:
  "run_ticks caps (env # envs) w = run_ticks caps envs (update_stats caps env w)"
  by (simp add: run_ticks_def)

lemma placeholder_ticks:
  assumes "\<forall>env \<in> set envs. reports_no_gpu caps (gpu_backend env)"
    and "gpu_rows w = [(nm, r)]"
  shows "gpu_rows (run_ticks caps envs w) =
           [(nm, if envs = [] then r else update_value r (PyInt 0))]"
  using assms
proof (induction envs arbitrary: w r)
  case Nil
  then show ?case by (simp add: run_ticks_def)
next
  case (Cons env envs)
  from Cons.prems have q: "reports_no_gpu caps (gpu_backend env)"
    and rest: "\<forall>env \<in> set envs. reports_no_gpu caps (gpu_backend env)" by simp_all
  have step: "gpu_rows (update_stats caps env w) = [(nm, update_value r (PyInt 0))]"
    unfolding gpu_rows_update_stats Cons.prems(2) by (rule placeholder_tick [OF q])
  have idem: "update_value (update_value r (PyInt 0)) (PyInt 0) = update_value r (PyInt 0)"
    by simp
  show ?case
    unfolding run_ticks_Cons Cons.IH [OF rest step] idem by simp
qed

text \<open>
  C8, as amended. If both GPU backends yield 0 devices at enumeration (or neither is
  available), exactly one placeholder row named "GPU" is produced. That row is sampled
  like any other row 0: it shows 0 on every subsequent tick on which the backends again
  report no device, so on every tick if neither backend is available; a tick on which
  the native backend counts at least one device and answers for device 0 shows that
  device's utilization, clamped, in the placeholder row.
\<close>

theorem placeholder_row:
  "((\<not> NVML caps \<or> nvmlDeviceGetCount q = None \<or> nvmlDeviceGetCount q = Some 0)
      \<and> (\<not> GPUtil_available caps \<or> getGPUs q = None \<or> getGPUs q = Some [])
     \<longrightarrow> gpu_rows (OverlayWindow caps q) = [(''GPU'', StatRow ''GPU'')])
   \<and> (envs \<noteq> [] \<and> (\<forall>env \<in> set envs. reports_no_gpu caps (gpu_backend env))
        \<and> gpu_rows w = [(''GPU'', r)]
     \<longrightarrow> gpu_rows (run_ticks caps envs w) = [(''GPU'', r\<lparr>bar := 0, value_label := ''0%''\<rparr>)])
   \<and> (envs \<noteq> [] \<and> \<not> NVML caps \<and> \<not> GPUtil_available caps \<and> gpu_rows w = [(''GPU'', r)]
     \<longrightarrow> gpu_rows (run_ticks caps envs w) = [(''GPU'', r\<lparr>bar := 0, value_label := ''0%''\<rparr>)])
   \<and> (NVML caps \<and> nvmlDeviceGetCount (gpu_backend env) = Some (Suc n)
        \<and> nvmlDeviceGetUtilizationRates (gpu_backend env) 0 = Some u
        \<and> gpu_rows w = [(''GPU'', r)]
     \<longrightarrow> map (bar \<circ> snd) (gpu_rows (update_stats caps env w)) = [max 0 (min 100 u)])"
proof (intro conjI impI)
  assume "(\<not> NVML caps \<or> nvmlDeviceGetCount q = None \<or> nvmlDeviceGetCount q = Some 0)
      \<and> (\<not> GPUtil_available caps \<or> getGPUs q = None \<or> getGPUs q = Some [])"
  then have "enumerate_gpus caps q = ([], 0)"
    using enumerate_none [of caps q] by blast
  then show "gpu_rows (OverlayWindow caps q) = [(''GPU'', StatRow ''GPU'')]"
    by (simp add: OverlayWindow_rows populate_rows_def)
next
  assume a: "envs \<noteq> [] \<and> (\<forall>env \<in> set envs. reports_no_gpu caps (gpu_backend env))
        \<and> gpu_rows w = [(''GPU'', r)]"
  then have "gpu_rows (run_ticks caps envs w) =
               [(''GPU'', if envs = [] then r else update_value r (PyInt 0))]"
    using placeholder_ticks [of envs caps w "''GPU''" r] by blast
  with a show "gpu_rows (run_ticks caps envs w) = [(''GPU'', r\<lparr>bar := 0, value_label := ''0%''\<rparr>)]"
    by (simp add: str_int_0)
next
  assume a: "envs \<noteq> [] \<and> \<not> NVML caps \<and> \<not> GPUtil_available caps \<and> gpu_rows w = [(''GPU'', r)]"
  then have "\<forall>env \<in> set envs. reports_no_gpu caps (gpu_backend env)"
    by (simp add: reports_no_gpu_def)
  with a have "gpu_rows (run_ticks caps envs w) =
               [(''GPU'', if envs = [] then r else update_value r (PyInt 0))]"
    using placeholder_ticks [of envs caps w "''GPU''" r] by blast
  with a show "gpu_rows (run_ticks caps envs w) = [(''GPU'', r\<lparr>bar := 0, value_label := ''0%''\<rparr>)]"
    by (simp add: str_int_0)
next
  assume a: "NVML caps \<and> nvmlDeviceGetCount (gpu_backend env) = Some (Suc n)
        \<and> nvmlDeviceGetUtilizationRates (gpu_backend env) 0 = Some u
        \<and> gpu_rows w = [(''GPU'', r)]"
  then have "update_gpus caps (gpu_backend env) [(''GPU'', r)] =
               [(''GPU'', update_value r (PyInt u))]"
    using placeholder_shows_device [of caps "gpu_backend env" n u "''GPU''" r] by blast
  with a show "map (bar \<circ> snd) (gpu_rows (update_stats caps env w)) = [max 0 (min 100 u)]"
    by (simp add: gpu_rows_update_stats)
qed

theorem placeholder_row_witness:
  "gpu_rows (OverlayWindow both_backends no_gpu) = [(''GPU'', StatRow ''GPU'')]
   \<and> gpu_rows (run_ticks both_backends [gpu_tick no_gpu, gpu_tick no_gpu]
                 (OverlayWindow both_backends no_gpu))
       = [(''GPU'', \<lparr>label = ''GPU'', bar = 0, value_label = ''0%''\<rparr>)]
   \<and> gpu_rows (run_ticks no_backend [gpu_tick one_native_gpu, gpu_tick two_fallback_gpus]
                 (OverlayWindow no_backend one_native_gpu))
       = [(''GPU'', \<lparr>label = ''GPU'', bar = 0, value_label = ''0%''\<rparr>)]
   \<and> map (bar \<circ> snd) (gpu_rows (update_stats both_backends (gpu_tick one_native_gpu)
                                    (OverlayWindow both_backends no_gpu))) = [37]"
proof -
  let ?w = "OverlayWindow both_backends no_gpu"
  let ?v = "OverlayWindow no_backend one_native_gpu"
  note t = placeholder_row [of both_backends no_gpu "[gpu_tick no_gpu, gpu_tick no_gpu]" ?w
             "StatRow ''GPU''" "gpu_tick one_native_gpu" 0 37]
  note s = placeholder_row [of no_backend one_native_gpu
             "[gpu_tick one_native_gpu, gpu_tick two_fallback_gpus]" ?v
             "StatRow ''GPU''" "gpu_tick one_native_gpu" 0 37]
  have 1: "gpu_rows ?w = [(''GPU'', StatRow ''GPU'')]"
    using t by (simp add: no_gpu_def)
  have 0: "gpu_rows ?v = [(''GPU'', StatRow ''GPU'')]"
    using s by (simp add: no_backend_def)
  have q: "\<forall>env \<in> set [gpu_tick no_gpu, gpu_tick no_gpu]. reports_no_gpu both_backends (gpu_backend env)"
    by (simp add: reports_no_gpu_def both_backends_def no_gpu_def)
  have 2: "gpu_rows (run_ticks both_backends [gpu_tick no_gpu, gpu_tick no_gpu] ?w)
             = [(''GPU'', (StatRow ''GPU'')\<lparr>bar := 0, value_label := ''0%''\<rparr>)]"
    using t 1 q by blast
  have 3: "gpu_rows (run_ticks no_backend [gpu_tick one_native_gpu, gpu_tick two_fallback_gpus] ?v)
             = [(''GPU'', (StatRow ''GPU'')\<lparr>bar := 0, value_label := ''0%''\<rparr>)]"
    using s 0 by (simp add: no_backend_def)
  have p: "NVML both_backends \<and> nvmlDeviceGetCount (gpu_backend (gpu_tick one_native_gpu)) = Some (Suc 0)
        \<and> nvmlDeviceGetUtilizationRates (gpu_backend (gpu_tick one_native_gpu)) 0 = Some 37"
    by (simp add: both_backends_def one_native_gpu_def)
  have 4: "map (bar \<circ> snd) (gpu_rows (update_stats both_backends (gpu_tick one_native_gpu) ?w))
             = [max 0 (min 100 37)]"
    using t 1 p by blast
  from 1 2 3 4 show ?thesis
    by (simp add: StatRow_def)
qed

text \<open>
  The claim as it is worded fails: both backends yield no device at enumeration, so the
  placeholder is produced; on a later tick the native backend counts one device at 37
  percent, and the placeholder row shows 37.
\<close>

theorem placeholder_permanent_counterexample:
  "gpu_rows (OverlayWindow both_backends no_gpu) = [(''GPU'', StatRow ''GPU'')]
   \<and> map (bar \<circ> snd) (gpu_rows (update_stats both_backends (gpu_tick one_native_gpu)
                                    (OverlayWindow both_backends no_gpu))) = [37]"
proof -
  have e: "enumerate_gpus both_backends no_gpu = ([], 0)"
    by (simp add: enumerate_gpus_def native_enumerate_def fallback_consulted_def
          both_backends_def no_gpu_def)
  have 1: "gpu_rows (OverlayWindow both_backends no_gpu) = [(''GPU'', StatRow ''GPU'')]"
    by (simp add: OverlayWindow_rows e populate_rows_def)
  have "update_gpus both_backends one_native_gpu [(''GPU'', StatRow ''GPU'')] =
          [(''GPU'', update_value (StatRow ''GPU'') (PyInt 37))]"
    by (simp add: update_gpus_def both_backends_def one_native_gpu_def set_row_def
          del: update_value_int)
  with 1 show ?thesis
    by (simp add: gpu_rows_update_stats)
qed

section \<open>The battery label\<close>

lemma battery_tick_simps [simp]: "sensors_battery (battery_tick b) = b"
  by (simp add: battery_tick_def)

lemma emoji_not_N: "plug_emoji @ s \<noteq> ''No battery''" "battery_emoji @ s \<noteq> ''No battery''"
  by (simp_all add: plug_emoji_def battery_emoji_def)

text \<open>
  C9. When the battery sensor reports no battery, the label reads "No battery"; a battery
  that is present never gives that label, so an absent battery is told apart from one at
  0 percent that is not charging. When a battery is present the label carries its
  truncated percent and the status, "Charging" if the sensor says it is plugged and
  "On Battery" otherwise (also when the sensor cannot tell).
\<close>

theorem battery_label:
  "(sensors_battery env = Some None \<longrightarrow> batt_label (update_stats caps env w) = ''No battery'')
   \<and> (sensors_battery env = Some (Some batt) \<longrightarrow>
        batt_label (update_stats caps env w) \<noteq> ''No battery'')
   \<and> (sensors_battery env = Some (Some batt) \<and> power_plugged batt = Some True \<longrightarrow>
        batt_label (update_stats caps env w) =
          plug_emoji @ '' '' @ str_int (py_trunc (percent batt)) @ ''% (Charging)'')
   \<and> (sensors_battery env = Some (Some batt) \<and> power_plugged batt \<noteq> Some True \<longrightarrow>
        batt_label (update_stats caps env w) =
          battery_emoji @ '' '' @ str_int (py_trunc (percent batt)) @ ''% (On Battery)'')"
proof (intro conjI impI)
  assume "sensors_battery env = Some None"
  then show "batt_label (update_stats caps env w) = ''No battery''"
    by (simp add: batt_label_update_stats update_battery_def)
next
  assume "sensors_battery env = Some (Some batt)"
  then show "batt_label (update_stats caps env w) \<noteq> ''No battery''"
    by (simp add: batt_label_update_stats update_battery_def Let_def emoji_not_N)
next
  assume "sensors_battery env = Some (Some batt) \<and> power_plugged batt = Some True"
  then show "batt_label (update_stats caps env w) =
          plug_emoji @ '' '' @ str_int (py_trunc (percent batt)) @ ''% (Charging)''"
    by (simp add: batt_label_update_stats update_battery_def Let_def)
next
  assume "sensors_battery env = Some (Some batt) \<and> power_plugged batt \<noteq> Some True"
  then show "batt_label (update_stats caps env w) =
          battery_emoji @ '' '' @ str_int (py_trunc (percent batt)) @ ''% (On Battery)''"
    by (simp add: batt_label_update_stats update_battery_def Let_def)
qed

theorem battery_label_witness:
  "batt_label (update_stats both_backends (battery_tick (Some None)) build_ui) = ''No battery''
   \<and> batt_label (update_stats both_backends
        (battery_tick (Some (Some \<lparr>percent = 0, power_plugged = Some False\<rparr>))) build_ui)
       = battery_emoji @ '' 0% (On Battery)''
   \<and> batt_label (update_stats both_backends
        (battery_tick (Some (Some \<lparr>percent = 0, power_plugged = Some False\<rparr>))) build_ui)
       \<noteq> ''No battery''
   \<and> batt_label (update_stats both_backends
        (battery_tick (Some (Some \<lparr>percent = 873 / 10, power_plugged = Some True\<rparr>))) build_ui)
       = plug_emoji @ '' 87% (Charging)''
   \<and> batt_label (update_stats both_backends
        (battery_tick (Some (Some \<lparr>percent = 873 / 10, power_plugged = None\<rparr>))) build_ui)
       = battery_emoji @ '' 87% (On Battery)''"
proof -
  let ?b0 = "\<lparr>percent = 0, power_plugged = Some False\<rparr>"
  let ?b1 = "\<lparr>percent = 873 / 10, power_plugged = Some True\<rparr>"
  let ?b2 = "\<lparr>percent = 873 / 10, power_plugged = None\<rparr>"
  have d: "str_int (py_trunc 0) = ''0''" "str_int (py_trunc (873 / 10)) = ''87''"
    by (simp_all add: py_trunc_def str_int_def str_nat.simps digit_char_def)
  have 1: "batt_label (update_stats both_backends (battery_tick (Some None)) build_ui) = ''No battery''"
    using battery_label [of "battery_tick (Some None)" both_backends build_ui ?b0] by simp
  have 2: "batt_label (update_stats both_backends (battery_tick (Some (Some ?b0))) build_ui)
             = battery_emoji @ '' '' @ str_int (py_trunc (percent ?b0)) @ ''% (On Battery)''"
    using battery_label [of "battery_tick (Some (Some ?b0))" both_backends build_ui ?b0] by simp
  have 3: "batt_label (update_stats both_backends (battery_tick (Some (Some ?b0))) build_ui)
             \<noteq> ''No battery''"
    using battery_label [of "battery_tick (Some (Some ?b0))" both_backends build_ui ?b0] by simp
  have 4: "batt_label (update_stats both_backends (battery_tick (Some (Some ?b1))) build_ui)
             = plug_emoji @ '' '' @ str_int (py_trunc (percent ?b1)) @ ''% (Charging)''"
    using battery_label [of "battery_tick (Some (Some ?b1))" both_backends build_ui ?b1] by simp
  have 5: "batt_label (update_stats both_backends (battery_tick (Some (Some ?b2))) build_ui)
             = battery_emoji @ '' '' @ str_int (py_trunc (percent ?b2)) @ ''% (On Battery)''"
    using battery_label [of "battery_tick (Some (Some ?b2))" both_backends build_ui ?b2] by simp
  from 1 2 3 4 5 show ?thesis
    by (simp add: d)
qed


section \<open>The panes\<close>

lemma consistent_build_ui: "consistent build_ui"
  by (simp add: consistent_def active_pane_def visible_panes_def build_ui_def)

lemma consistent_clicked: "consistent w \<Longrightarrow> consistent (clicked w c)"
  by (cases c)
     (auto simp: consistent_def active_pane_def visible_panes_def toggle_tab_def
        open_settings_def show_live_from_tab_def hide_settings_def
        split: if_splits option.splits)

lemma session_snoc: "session (cs @ [c]) = clicked (session cs) c"
  by (simp add: session_def)

lemma consistent_session: "consistent (session cs)"
proof (induction cs rule: rev_induct)
  case Nil
  show ?case by (simp add: session_def consistent_build_ui)
next
  case (snoc c cs)
  then show ?case by (simp add: session_snoc consistent_clicked)
qed

lemma tab_toggles_back:
  "consistent w \<Longrightarrow> p = Info \<or> p = About \<Longrightarrow> active_pane w = Some p \<Longrightarrow>
   active_pane (requestPane p w) = Some Live"
  by (auto simp: consistent_def active_pane_def visible_panes_def toggle_tab_def
        hide_settings_def split: if_splits option.splits)

lemma request_activates:
  "consistent w \<Longrightarrow> p \<noteq> Live \<Longrightarrow> active_pane w \<noteq> Some p \<Longrightarrow>
   active_pane (requestPane p w) = Some p"
  by (cases p)
     (auto simp: consistent_def active_pane_def visible_panes_def toggle_tab_def
        open_settings_def hide_settings_def split: if_splits option.splits)

lemma settings_stays:
  "active_pane (requestPane Settings w) = Some Settings"
  by (simp add: active_pane_def visible_panes_def open_settings_def)

lemma info_twice:
  "active_pane (requestPane Info (requestPane Info build_ui)) = Some Live"
  by (simp add: active_pane_def visible_panes_def toggle_tab_def hide_settings_def build_ui_def)

lemma info_then_about:
  "active_pane (requestPane About (requestPane Info build_ui)) = Some About"
  "\<not> info_area (requestPane About (requestPane Info build_ui))"
  "\<not> tab_info (requestPane About (requestPane Info build_ui))"
  by (simp_all add: active_pane_def visible_panes_def toggle_tab_def hide_settings_def build_ui_def)

text \<open>
  C4, as amended. In every state of a session, for the panes Info and About: requesting
  the pane while it is the active pane transitions back to Live (toggle semantics). For
  every non-Live pane (Info, About, Settings): requesting it while a different pane is
  active activates it and deactivates the previously active pane. Requesting Settings
  while Settings is active leaves Settings active. In particular requestPane(Info) twice
  returns to Live, and requestPane(Info) then requestPane(About) leaves About active and
  Info inactive.
\<close>

theorem pane_requests:
  "((p = Info \<or> p = About) \<and> active_pane (session cs) = Some p
      \<longrightarrow> active_pane (requestPane p (session cs)) = Some Live)
   \<and> (p \<noteq> Live \<and> active_pane (session cs) \<noteq> Some p
      \<longrightarrow> active_pane (requestPane p (session cs)) = Some p)
   \<and> active_pane (requestPane Settings (session cs)) = Some Settings
   \<and> active_pane (requestPane Info (requestPane Info build_ui)) = Some Live
   \<and> active_pane (requestPane About (requestPane Info build_ui)) = Some About
   \<and> \<not> info_area (requestPane About (requestPane Info build_ui))
   \<and> \<not> tab_info (requestPane About (requestPane Info build_ui))"
  using tab_toggles_back [OF consistent_session, of p cs]
    request_activates [OF consistent_session, of p cs]
    settings_stays [of "session cs"] info_twice info_then_about
  by blast

theorem pane_requests_witness:
  "active_pane (session [ClickSettings, ClickAbout]) = Some About
   \<and> active_pane (requestPane About (session [ClickSettings, ClickAbout])) = Some Live
   \<and> active_pane (requestPane Info (session [ClickSettings, ClickAbout])) = Some Info
   \<and> active_pane (requestPane Settings (session [ClickSettings, ClickAbout])) = Some Settings"
proof -
  let ?cs = "[ClickSettings, ClickAbout]"
  have a: "active_pane (session ?cs) = Some About"
    by (simp add: session_def active_pane_def visible_panes_def toggle_tab_def open_settings_def
          hide_settings_def build_ui_def)
  have 1: "active_pane (requestPane About (session ?cs)) = Some Live"
    using pane_requests [of About ?cs] a by blast
  have 2: "active_pane (requestPane Info (session ?cs)) = Some Info"
    using pane_requests [of Info ?cs] a by simp
  have 3: "active_pane (requestPane Settings (session ?cs)) = Some Settings"
    using pane_requests [of Settings ?cs] by blast
  from a 1 2 3 show ?thesis by blast
qed

text \<open>
  The claim as it is worded fails for Settings: \<^verbatim>\<open>open_settings\<close> shows the settings pane
  whatever the state is, so requesting Settings while Settings is active does not go back
  to Live.
\<close>

theorem settings_toggle_counterexample:
  "active_pane (requestPane Settings build_ui) = Some Settings
   \<and> active_pane (requestPane Settings (requestPane Settings build_ui)) = Some Settings
   \<and> active_pane (requestPane Settings (requestPane Settings build_ui)) \<noteq> Some Live"
  by (simp add: active_pane_def visible_panes_def open_settings_def build_ui_def)


end
